theory Spec2Isabelle
  imports Complex_Main
begin

section \<open>The main program of the SNR modelling GUI (snr.py)\<close>

text \<open>
  The event handlers of \<^verbatim>\<open>src/PythonVersion/snr.py\<close> act on module-level state: the
  widget registry \<^verbatim>\<open>widgets\<close>, the remnant object \<^verbatim>\<open>SNR\<close> (its dictionaries
  \<^verbatim>\<open>SNR.data\<close> and \<^verbatim>\<open>SNR.calc\<close>), the slot table \<^verbatim>\<open>ab_window_open\<close> and the two
  globals \<^verbatim>\<open>ism_ab_type\<close>, \<^verbatim>\<open>ej_ab_type\<close>. Each handler is a function from that state to
  the state it leaves behind, paired with the calls it makes to the collaborators that
  are not part of the file (recompute, replot, the window toolkit), in the order made.
\<close>

subsection \<open>Values, errors and outgoing calls\<close>

datatype error = ValueError | KeyError

text \<open>A value of a Python dictionary or Tk variable: a number or a string.\<close>

datatype pyval = Num real | Str string

text \<open>
  A call to a collaborator. \<open>Update_output\<close> and \<open>Display_plot\<close> carry the state the
  callee finds when it is called, so that the order of a write and a call is visible.
\<close>

datatype 's effect =
    Update_output 's
  | Display_plot 's
  | Validate string
  | Create_window nat
  | Focus nat
  | Destroy nat
  | Raised error

subsection \<open>The program state\<close>

text \<open>
  A spin box of the axis frame: the number \<^verbatim>\<open>get_value()\<close> reads from its Tk variable,
  the attribute \<^verbatim>\<open>previous\<close>, and the options \<^verbatim>\<open>increment\<close> and \<^verbatim>\<open>to\<close> of its input
  (\<^verbatim>\<open>config\<close> writes them, \<^verbatim>\<open>cget\<close> reads them).
  The two spin boxes run from 0 to 100000000 in whole steps and \<^verbatim>\<open>previous\<close> is stored
  rounded, so their values are integers; on integers Python's \<^verbatim>\<open>round\<close> is the identity.
\<close>

record spinbox =
  value_var :: int
  previous :: int
  opt_increment :: int
  opt_to :: int

datatype axis = Xmin | Xmax

fun identifier_of :: "axis \<Rightarrow> string" where
  "identifier_of Xmin = ''xmin''"
| "identifier_of Xmax = ''xmax''"

text \<open>The two parts of a widget that are placed on the grid.\<close>

datatype part = Input | Label

datatype ab_kind = ISM | Ejecta

text \<open>The two dictionaries of \<^verbatim>\<open>SNR.data\<close> that the abundance windows are given.\<close>

datatype data_key = Abundance | Ej_abundance

text \<open>
  The widgets of the main window are named by their identifiers, all of them registered
  while the program starts. The abundance windows are numbered in the order of their
  creation.
\<close>

record gui =
  data_range :: string                      \<comment> \<open>\<^verbatim>\<open>SNR.data["range"]\<close>\<close>
  range_var :: string                       \<comment> \<open>\<^verbatim>\<open>SNR.widgets["range"].value_var\<close>\<close>
  data_limits :: "string \<rightharpoonup> int"            \<comment> \<open>\<^verbatim>\<open>SNR.data[widget.identifier]\<close>\<close>
  spin :: "axis \<Rightarrow> spinbox"                  \<comment> \<open>\<^verbatim>\<open>widgets["xmin"]\<close>, \<^verbatim>\<open>widgets["xmax"]\<close>\<close>
  value_vars :: "string \<Rightarrow> pyval"            \<comment> \<open>\<^verbatim>\<open>widgets[id].value_var\<close>\<close>
  previous_vals :: "string \<Rightarrow> pyval"         \<comment> \<open>\<^verbatim>\<open>widgets[id].previous\<close>\<close>
  input_values :: "string \<Rightarrow> pyval list"     \<comment> \<open>option \<^verbatim>\<open>values\<close> of \<^verbatim>\<open>widgets[id].input\<close>\<close>
  input_state :: "string \<Rightarrow> string"          \<comment> \<open>option \<^verbatim>\<open>state\<close> of \<^verbatim>\<open>widgets[id].input\<close>\<close>
  model_input :: "string \<Rightarrow> string"          \<comment> \<open>\<^verbatim>\<open>state\<close> of \<^verbatim>\<open>widgets["model"].input[key]\<close>\<close>
  gridded :: "string \<Rightarrow> part \<Rightarrow> bool"         \<comment> \<open>is the part of \<^verbatim>\<open>widgets[id]\<close> on the grid\<close>
  calc_t_c :: real                          \<comment> \<open>\<^verbatim>\<open>SNR.calc["t_c"]\<close>\<close>
  calc_t_pds :: real                        \<comment> \<open>\<^verbatim>\<open>SNR.calc["t_pds"]\<close>\<close>
  data_dicts :: "data_key \<Rightarrow> string \<rightharpoonup> pyval" \<comment> \<open>\<^verbatim>\<open>SNR.data["abundance"]\<close>, \<^verbatim>\<open>SNR.data["ej_abundance"]\<close>\<close>
  ab_window_open :: "ab_kind \<Rightarrow> nat option"  \<comment> \<open>\<^verbatim>\<open>False\<close> is \<open>None\<close>\<close>
  ism_ab_type :: pyval
  ej_ab_type :: pyval
  next_window :: nat                        \<comment> \<open>the number of the next window made\<close>
  toplevels :: "nat \<rightharpoonup> ab_kind"             \<comment> \<open>the abundance windows alive, each with its kind\<close>
  instances :: "nat \<rightharpoonup> (string \<rightharpoonup> pyval)"   \<comment> \<open>\<^verbatim>\<open>gui.InputParam.instances[str(root)]\<close>\<close>
  close_bound :: "nat \<rightharpoonup> data_key \<times> ab_kind"  \<comment> \<open>what the closing callbacks of a window hold\<close>

text \<open>A list of statements, run in order.\<close>

definition seq :: "('s \<Rightarrow> 's) list \<Rightarrow> 's \<Rightarrow> 's" where
  "seq fs st = fold (\<lambda>f s. f s) fs st"

text \<open>\<^verbatim>\<open>widgets[id].input.grid()\<close>, \<^verbatim>\<open>.grid_remove()\<close>, and the same for the label.\<close>

definition grid :: "string \<Rightarrow> part \<Rightarrow> gui \<Rightarrow> gui" where
  "grid w p st = st\<lparr>gridded := (gridded st)(w := (gridded st w)(p := True))\<rparr>"

definition grid_remove :: "string \<Rightarrow> part \<Rightarrow> gui \<Rightarrow> gui" where
  "grid_remove w p st = st\<lparr>gridded := (gridded st)(w := (gridded st w)(p := False))\<rparr>"

text \<open>\<^verbatim>\<open>widgets[id].input.config(state=...)\<close> and \<^verbatim>\<open>widgets["model"].input[key].config(state=...)\<close>.\<close>

definition config_state :: "string \<Rightarrow> string \<Rightarrow> gui \<Rightarrow> gui" where
  "config_state w v st = st\<lparr>input_state := (input_state st)(w := v)\<rparr>"

definition config_model_input :: "string \<Rightarrow> string \<Rightarrow> gui \<Rightarrow> gui" where
  "config_model_input key v st = st\<lparr>model_input := (model_input st)(key := v)\<rparr>"

definition config_values :: "string \<Rightarrow> pyval list \<Rightarrow> gui \<Rightarrow> gui" where
  "config_values w vs st = st\<lparr>input_values := (input_values st)(w := vs)\<rparr>"

text \<open>\<^verbatim>\<open>widgets[id].value_var.set(v)\<close>.\<close>

definition value_var_set :: "string \<Rightarrow> pyval \<Rightarrow> gui \<Rightarrow> gui" where
  "value_var_set w v st = st\<lparr>value_vars := (value_vars st)(w := v)\<rparr>"

text \<open>
  Modelled from the spec: \<^verbatim>\<open>get_value\<close> of the module \<^verbatim>\<open>snr_gui\<close>, which is not among the
  sources. The spec's registry returns the current value of a parameter: what the Tk
  variable of the widget holds, as a number where it is one.
\<close>

definition get_value :: "gui \<Rightarrow> string \<Rightarrow> pyval" where
  "get_value st w = value_vars st w"

text \<open>
  Modelled from the spec: \<^verbatim>\<open>revert_value\<close> of the module \<^verbatim>\<open>snr_gui\<close>, which is not among
  the sources. The spec has the input reverted to its last valid value; that value is
  kept in the attribute \<^verbatim>\<open>previous\<close>, as \<^verbatim>\<open>increment_xlimits\<close> shows.
\<close>

definition revert_value :: "string \<Rightarrow> gui \<Rightarrow> gui" where
  "revert_value w st = value_var_set w (previous_vals st w) st"

subsection \<open>The axis limits: \<^verbatim>\<open>increment_xlimits\<close>\<close>

text \<open>
  \<^verbatim>\<open>math.floor(math.log10(n))\<close> for a whole number \<open>n \<ge> 1\<close>, by counting digits.
  \<open>floor_log10_eq\<close> below shows that it is the floor of the real logarithm, which the
  floating point logarithm is taken to be.
\<close>

fun floor_log10 :: "nat \<Rightarrow> nat" where
  "floor_log10 n = (if n < 10 then 0 else Suc (floor_log10 (n div 10)))"

declare floor_log10.simps [simp del]

text \<open>\<^verbatim>\<open>math.log10\<close> raises \<^verbatim>\<open>ValueError\<close> on zero and on negative numbers.\<close>

definition log10_floor :: "int \<Rightarrow> error + nat" where
  "log10_floor x = (if x \<le> 0 then Inl ValueError else Inr (floor_log10 (nat x)))"

text \<open>
  Lines 149 to 157: the \<^verbatim>\<open>try\<close> block that chooses the increment. \<^verbatim>\<open>increment /= 10\<close>
  is reached only for a power of ten above ten, where the division is exact.
\<close>

definition new_increment :: "int \<Rightarrow> int \<Rightarrow> int" where
  "new_increment old_val direction =
     (case log10_floor old_val of
        Inl _ \<Rightarrow> 10
      | Inr k \<Rightarrow>
          (let increment = max (10 ^ k) 10
           in if old_val = increment \<and> increment \<noteq> 10 \<and> direction = - 1
              then increment div 10 else increment))"

text \<open>
  \<^verbatim>\<open>math.floor(a/b)\<close> and \<^verbatim>\<open>math.ceil(a/b)\<close>: the true quotient, rounded down and up.
  \<open>floor_quot_div\<close> and \<open>ceil_quot_div\<close> below compute them by integer division.
\<close>

definition floor_quot :: "int \<Rightarrow> int \<Rightarrow> int" where
  "floor_quot a b = \<lfloor>real_of_int a / real_of_int b\<rfloor>"

definition ceil_quot :: "int \<Rightarrow> int \<Rightarrow> int" where
  "ceil_quot a b = \<lceil>real_of_int a / real_of_int b\<rceil>"

text \<open>
  Lines 162 to 173: the value an arrow leads to, and the value written to the Tk
  variable when the value is moved to a multiple of the increment (\<open>None\<close> when it
  is not). \<^verbatim>\<open>step\<close> is what \<^verbatim>\<open>widget.input.cget("increment")\<close> returns.
\<close>

definition arrow_value :: "int \<Rightarrow> int \<Rightarrow> int \<Rightarrow> int \<Rightarrow> int \<Rightarrow> int \<times> int option" where
  "arrow_value old_val maximum step increment direction =
     (let new_val = old_val + direction * step;
          snap = (new_val mod increment \<noteq> 0 \<and> \<not> (old_val = maximum \<and> direction = 1));
          new_val1 =
            (if snap
             then (if direction = 1
                   then floor_quot new_val increment * increment
                   else ceil_quot new_val increment * increment)
             else new_val);
          shown = (if snap then Some (new_val1 - direction * increment) else None);
          new_val2 = (if new_val1 > maximum then maximum else new_val1)
      in (new_val2, shown))"

definition config_increment :: "axis \<Rightarrow> int \<Rightarrow> gui \<Rightarrow> gui" where
  "config_increment widget i st = st\<lparr>spin := (spin st)(widget := (spin st widget)\<lparr>opt_increment := i\<rparr>)\<rparr>"

definition set_value_var :: "axis \<Rightarrow> int \<Rightarrow> gui \<Rightarrow> gui" where
  "set_value_var widget v st = st\<lparr>spin := (spin st)(widget := (spin st widget)\<lparr>value_var := v\<rparr>)\<rparr>"

text \<open>Lines 177 and 178, and 180 and 181: the value is stored in \<^verbatim>\<open>SNR.data\<close>.\<close>

definition store_limit :: "axis \<Rightarrow> int \<Rightarrow> gui \<Rightarrow> gui" where
  "store_limit widget v st =
     st\<lparr>data_limits := (data_limits st)(identifier_of widget \<mapsto> v),
        spin := (spin st)(widget := (spin st widget)\<lparr>previous := v\<rparr>)\<rparr>"

text \<open>
  The arrow branch, lines 160 to 178. The Tk variable of line 170 is written before the
  guard of line 174 reads the two editors.
\<close>

definition arrow_edit :: "axis \<Rightarrow> int \<Rightarrow> int \<Rightarrow> int \<Rightarrow> gui \<Rightarrow> gui" where
  "arrow_edit widget direction old_val increment st =
     (let maximum = opt_to (spin st widget);
          av = arrow_value old_val maximum (opt_increment (spin st widget)) increment direction;
          new_val = fst av;
          st1 = (case snd av of Some v \<Rightarrow> set_value_var widget v st | None \<Rightarrow> st)
      in if \<not> (old_val = 0 \<and> direction = - 1)
            \<and> \<not> (new_val = value_var (spin st1 Xmin) \<or> new_val = value_var (spin st1 Xmax))
         then store_limit widget new_val st1 else st1)"

text \<open>Lines 145 to 147: the dropdown is made to read \<^verbatim>\<open>Custom\<close> if it does not already.\<close>

definition force_custom :: "gui \<Rightarrow> gui" where
  "force_custom st =
     (if data_range st \<noteq> ''Custom''
      then st\<lparr>data_range := ''Custom'', range_var := ''Custom''\<rparr> else st)"

definition increment_xlimits :: "axis \<Rightarrow> int \<Rightarrow> gui \<Rightarrow> gui \<times> gui effect list" where
  "increment_xlimits widget direction st =
     (let st1 = force_custom st;
          old_val = value_var (spin st1 widget);
          increment = new_increment old_val direction;
          st2 = config_increment widget increment st1;
          st3 = (if direction \<noteq> 0
                 then arrow_edit widget direction old_val increment st2
                 else store_limit widget old_val st2)
      in (st3, [Display_plot st3]))"

text \<open>The paired bound of an axis editor.\<close>

fun other :: "axis \<Rightarrow> axis" where
  "other Xmin = Xmax"
| "other Xmax = Xmin"

text \<open>
  The value \<^verbatim>\<open>new_val\<close> has when line 174 is reached, as a function of the state in
  which an arrow is used.
\<close>

definition arrow_result :: "axis \<Rightarrow> int \<Rightarrow> gui \<Rightarrow> int" where
  "arrow_result widget direction st =
     (let old_val = value_var (spin st widget);
          increment = new_increment old_val direction
      in fst (arrow_value old_val (opt_to (spin st widget)) increment increment direction))"

text \<open>The state in which the guard of line 174 reads the two editors.\<close>

definition shown_state :: "axis \<Rightarrow> int \<Rightarrow> gui \<Rightarrow> gui" where
  "shown_state w d st =
     (let old = value_var (spin st w); inc = new_increment old d;
          st2 = config_increment w inc (force_custom st)
      in case snd (arrow_value old (opt_to (spin st w)) inc inc d) of
           Some v \<Rightarrow> set_value_var w v st2 | None \<Rightarrow> st2)"

text \<open>The guard of line 174, as a function of the state in which an arrow is used.\<close>

definition accepted :: "axis \<Rightarrow> int \<Rightarrow> gui \<Rightarrow> bool" where
  "accepted widget direction st \<longleftrightarrow>
     \<not> (value_var (spin st widget) = 0 \<and> direction = - 1)
     \<and> \<not> (arrow_result widget direction st = value_var (spin (shown_state widget direction st) Xmin)
          \<or> arrow_result widget direction st = value_var (spin (shown_state widget direction st) Xmax))"

text \<open>
  The words of the specification for the snapping: the nearest multiple of the step at
  or below a value, and at or above it.
\<close>

definition nearest_multiple_below :: "int \<Rightarrow> int \<Rightarrow> int \<Rightarrow> bool" where
  "nearest_multiple_below step raw s \<longleftrightarrow> step dvd s \<and> s \<le> raw \<and> raw < s + step"

definition nearest_multiple_above :: "int \<Rightarrow> int \<Rightarrow> int \<Rightarrow> bool" where
  "nearest_multiple_above step raw s \<longleftrightarrow> step dvd s \<and> raw \<le> s \<and> s < raw + step"

subsection \<open>The ambient index: \<^verbatim>\<open>s_change\<close>\<close>

definition s_change :: "bool \<Rightarrow> gui \<Rightarrow> gui \<times> gui effect list" where
  "s_change update st =
     (let st' =
        (if value_vars st ''s'' = Str ''0''
         then seq [grid_remove ''m_w'' Input, grid_remove ''m_w'' Label,
                   grid_remove ''v_w'' Input, grid_remove ''v_w'' Label,
                   config_model_input ''lk'' ''normal'',
                   config_model_input ''wl'' ''normal'',
                   (\<lambda>s. if 1 / 10 * calc_t_c s \<le> calc_t_pds s
                        then config_model_input ''tw'' ''normal'' s else s),
                   config_values ''n'' (map Num [0, 2, 4, 6, 7, 8, 9, 10, 12, 14]),
                   (\<lambda>s. if get_value s ''n'' = Num 1
                        then value_var_set ''n'' (Num 0) s else s)] st
         else seq [grid ''m_w'' Input, grid ''m_w'' Label,
                   grid ''v_w'' Input, grid ''v_w'' Label,
                   config_model_input ''lk'' ''disabled'',
                   config_model_input ''tw'' ''disabled'',
                   config_model_input ''wl'' ''disabled'',
                   config_values ''n'' (map Num [0, 1, 2, 7]),
                   (\<lambda>s. if get_value s ''n'' \<notin> set (map Num [0, 1, 2, 7])
                        then value_var_set ''n'' (Num 0) s else s)] st)
      in (st', if update then [Update_output st'] else []))"

text \<open>
  What the branch for \<^verbatim>\<open>'0'\<close> leaves behind: the wind parameters off the grid and an
  index other than 1. The program is in such a state whenever the index \<open>s\<close> reads
  \<^verbatim>\<open>'0'\<close>, since \<^verbatim>\<open>s_change\<close> runs at the start (line 559) and on every change of \<open>s\<close>.
\<close>

definition zero_settled :: "gui \<Rightarrow> bool" where
  "zero_settled st \<longleftrightarrow>
     value_vars st ''s'' = Str ''0''
     \<and> gridded st ''m_w'' = (\<lambda>p. False) \<and> gridded st ''v_w'' = (\<lambda>p. False)
     \<and> get_value st ''n'' \<noteq> Num 1"

subsection \<open>The model type: \<^verbatim>\<open>model_change\<close>\<close>

text \<open>
  \<^verbatim>\<open>widgets["t_lk"].input.validate()\<close> belongs to \<^verbatim>\<open>snr_gui\<close>; it concerns the entry
  \<^verbatim>\<open>t_lk\<close> alone and is recorded as a call.
\<close>

definition model_change :: "bool \<Rightarrow> gui \<Rightarrow> gui \<times> gui effect list" where
  "model_change update st =
     (let st' = seq
        [(\<lambda>s. if get_value s ''model'' \<noteq> Str ''lk''
               then seq [grid_remove ''t_lk'' Input, grid_remove ''t_lk'' Label,
                         grid_remove ''gamma_0'' Input, grid_remove ''gamma_0'' Label,
                         grid_remove ''eps'' Input, grid_remove ''eps'' Label] s
               else seq [grid ''t_lk'' Input, grid ''t_lk'' Label,
                         grid ''gamma_0'' Input, grid ''gamma_0'' Label,
                         grid ''eps'' Input, grid ''eps'' Label] s),
         (\<lambda>s. if get_value s ''model'' = Str ''cf''
               then config_state ''s'' ''readonly'' s
               else config_state ''s'' ''disabled'' s),
         (\<lambda>s. if get_value s ''model'' = Str ''tw''
               then seq [config_state ''t_tw'' ''normal'', revert_value ''t_tw'',
                         grid ''t_tw'' Input, grid ''t_tw'' Label] s
               else seq [config_state ''t_tw'' ''disabled'',
                         value_var_set ''t_tw'' (Str ''N/A''),
                         grid_remove ''t_tw'' Input, grid_remove ''t_tw'' Label] s),
         (\<lambda>s. if get_value s ''model'' = Str ''wl''
               then seq [grid ''c_tau'' Input, grid ''c_tau'' Label] s
               else seq [grid_remove ''c_tau'' Input, grid_remove ''c_tau'' Label] s)] st;
          validated = (if get_value st ''model'' \<noteq> Str ''lk'' then [] else [Validate ''t_lk''])
      in (st', validated @ (if update then [Update_output st'] else [])))"

text \<open>
  Modelled from the spec: an entry of the main window after the user has put a valid
  value into it. The validation belongs to \<^verbatim>\<open>snr_gui\<close>, not among the sources; by the
  spec a value that passes is kept, and it is then the last valid value of the entry.
\<close>

definition valid_entry :: "string \<Rightarrow> pyval \<Rightarrow> gui \<Rightarrow> gui" where
  "valid_entry w v st =
     st\<lparr>value_vars := (value_vars st)(w := v), previous_vals := (previous_vals st)(w := v)\<rparr>"

subsection \<open>The abundance windows\<close>

definition ELEMENT_ORDER :: "string list" where
  "ELEMENT_ORDER = [''He'', ''C'', ''N'', ''O'', ''Ne'', ''Mg'', ''Si'', ''S'', ''Fe'']"

definition dict :: "(string \<times> real) list \<Rightarrow> string \<rightharpoonup> pyval" where
  "dict kvs = map_of (map (\<lambda>(k, v). (k, Num v)) kvs)"

definition ABUNDANCE_Solar :: "(string \<times> real) list" where
  "ABUNDANCE_Solar =
     [(''H'', 12), (''He'', 1093 / 100), (''C'', 852 / 100), (''O'', 883 / 100),
      (''Ne'', 808 / 100), (''N'', 792 / 100), (''Mg'', 758 / 100), (''Si'', 755 / 100),
      (''Fe'', 750 / 100), (''S'', 733 / 100)]"

definition ABUNDANCE_LMC :: "(string \<times> real) list" where
  "ABUNDANCE_LMC =
     [(''H'', 12), (''He'', 1094 / 100), (''C'', 804 / 100), (''N'', 714 / 100),
      (''O'', 835 / 100), (''Ne'', 761 / 100), (''Na'', 715 / 100), (''Mg'', 747 / 100),
      (''Si'', 781 / 100), (''S'', 670 / 100), (''Cl'', 476 / 100), (''Ar'', 629 / 100),
      (''Ca'', 589 / 100), (''Sc'', 264 / 100), (''Ti'', 481 / 100), (''V'', 408 / 100),
      (''Cr'', 547 / 100), (''Mn'', 521 / 100), (''Fe'', 723 / 100)]"

definition ABUNDANCE_Ejecta :: "(string \<times> real) list" where
  "ABUNDANCE_Ejecta =
     [(''H'', 12), (''He'', 14), (''C'', 16), (''O'', 18), (''Ne'', 16), (''N'', 16),
      (''Mg'', 16), (''Si'', 16), (''Fe'', 16), (''S'', 16)]"

definition ABUNDANCE_CC :: "(string \<times> real) list" where
  "ABUNDANCE_CC =
     [(''H'', 12), (''He'', 1122 / 100), (''C'', 925 / 100), (''N'', 862 / 100),
      (''O'', 969 / 100), (''Ne'', 892 / 100), (''Mg'', 830 / 100), (''Si'', 879 / 100),
      (''S'', 854 / 100), (''Fe'', 855 / 100)]"

definition ABUNDANCE_Type_Ia :: "(string \<times> real) list" where
  "ABUNDANCE_Type_Ia =
     [(''H'', 12), (''He'', 1140 / 100), (''C'', 1260 / 100), (''N'', 750 / 100),
      (''O'', 1291 / 100), (''Ne'', 1104 / 100), (''Mg'', 1155 / 100), (''Si'', 1275 / 100),
      (''S'', 1243 / 100), (''Fe'', 1312 / 100)]"

definition ABUNDANCE :: "string \<rightharpoonup> (string \<rightharpoonup> pyval)" where
  "ABUNDANCE = map_of
     [(''Solar'', dict ABUNDANCE_Solar), (''LMC'', dict ABUNDANCE_LMC),
      (''Ejecta'', dict ABUNDANCE_Ejecta), (''CC'', dict ABUNDANCE_CC),
      (''Type Ia'', dict ABUNDANCE_Type_Ia)]"

text \<open>
  The loop of lines 294 to 298: one entry for each element, showing the value of the
  dictionary as \<^verbatim>\<open>"{0:.2f}".format\<close> prints it (\<open>fmt\<close>, a parameter: the rounding is
  that of floating point numbers). A missing element raises \<^verbatim>\<open>KeyError\<close>, a string
  cannot be printed as a number; the entries made before stay.
\<close>

fun make_entries ::
  "(real \<Rightarrow> real) \<Rightarrow> (string \<rightharpoonup> pyval) \<Rightarrow> string list \<Rightarrow> (string \<rightharpoonup> pyval)
     \<Rightarrow> (string \<rightharpoonup> pyval) \<times> error option" where
  "make_entries fmt d [] acc = (acc, None)"
| "make_entries fmt d (element # es) acc =
     (case d element of
        None \<Rightarrow> (acc, Some KeyError)
      | Some (Str _) \<Rightarrow> (acc, Some ValueError)
      | Some (Num x) \<Rightarrow> make_entries fmt d es (acc(element \<mapsto> Num (fmt x))))"

text \<open>
  \<^verbatim>\<open>abundance_window\<close>. The new window is registered in \<^verbatim>\<open>ab_window_open\<close> before its
  entries are made; the three closing callbacks are bound last, all holding the root of
  the window, the dictionary and the kind.
\<close>

definition abundance_window ::
  "(real \<Rightarrow> real) \<Rightarrow> data_key \<Rightarrow> ab_kind \<Rightarrow> gui \<Rightarrow> gui \<times> gui effect list" where
  "abundance_window fmt abundance_dict ab_type st =
     (case ab_window_open st ab_type of
        Some w \<Rightarrow> (st, [Focus w])
      | None \<Rightarrow>
          (let window = next_window st;
               st1 = st\<lparr>next_window := Suc window,
                        toplevels := (toplevels st)(window \<mapsto> ab_type),
                        ab_window_open := (ab_window_open st)(ab_type := Some window)\<rparr>
           in case make_entries fmt (data_dicts st1 abundance_dict) ELEMENT_ORDER Map.empty of
                (entries, Some e) \<Rightarrow>
                  (st1\<lparr>instances := (instances st1)(window \<mapsto> entries)\<rparr>,
                   [Create_window window, Focus window, Raised e])
              | (entries, None) \<Rightarrow>
                  (let default_type = (if ab_type = ISM then ism_ab_type st1 else ej_ab_type st1)
                   in (st1\<lparr>instances := (instances st1)(window \<mapsto> entries(''ab_type'' \<mapsto> default_type)),
                           close_bound := (close_bound st1)(window \<mapsto> (abundance_dict, ab_type))\<rparr>,
                       [Create_window window, Focus window]))))"

text \<open>
  Modelled from the spec: \<^verbatim>\<open>gui.InputParam.get_values\<close> of \<^verbatim>\<open>snr_gui\<close>, not among the
  sources. It returns the working copy of the window: the value of each of its inputs
  under the identifier of the input, the preset selector under \<^verbatim>\<open>ab_type\<close>.
\<close>

definition get_values :: "gui \<Rightarrow> nat \<Rightarrow> string \<rightharpoonup> pyval" where
  "get_values st wroot = (case instances st wroot of None \<Rightarrow> Map.empty | Some m \<Rightarrow> m)"

text \<open>
  An event of Tk, with the identifier of the input it came from when that widget has
  a method \<^verbatim>\<open>validate\<close>. What \<^verbatim>\<open>validate()\<close> of \<^verbatim>\<open>snr_gui\<close> leaves in the input is a
  parameter: \<open>validate w v\<close> is the value of input \<open>w\<close> afterwards when it held \<open>v\<close>.
\<close>

datatype tk_event = Event "string option"

definition validate_input :: "(string \<Rightarrow> pyval \<Rightarrow> pyval) \<Rightarrow> nat \<Rightarrow> string \<Rightarrow> gui \<Rightarrow> gui" where
  "validate_input validate wroot w st =
     (case instances st wroot of
        None \<Rightarrow> st
      | Some m \<Rightarrow>
          (case m w of
             None \<Rightarrow> st
           | Some v \<Rightarrow> st\<lparr>instances := (instances st)(wroot \<mapsto> m(w \<mapsto> validate w v))\<rparr>))"

text \<open>\<^verbatim>\<open>root.destroy()\<close>: the window and its bindings are gone.\<close>

definition destroy :: "nat \<Rightarrow> gui \<Rightarrow> gui" where
  "destroy wroot st = st\<lparr>toplevels := (toplevels st)(wroot := None),
                         close_bound := (close_bound st)(wroot := None)\<rparr>"

text \<open>
  Lines 347 to 355: the slot is released, the values of the window are written into the
  dictionary, the preset is taken out of it again and kept as the type of the kind,
  the window is destroyed and the output recomputed. \<^verbatim>\<open>pop\<close> raises \<^verbatim>\<open>KeyError\<close> when
  there is no preset among the values; the lines before it have run by then.
\<close>

definition commit_and_destroy ::
  "nat \<Rightarrow> data_key \<Rightarrow> ab_kind \<Rightarrow> gui \<Rightarrow> gui \<times> gui effect list" where
  "commit_and_destroy wroot ab_dict ab_type st =
     (let st2 = st\<lparr>ab_window_open := (ab_window_open st)(ab_type := None)\<rparr>;
          st3 = st2\<lparr>data_dicts :=
                     (data_dicts st2)(ab_dict := data_dicts st2 ab_dict ++ get_values st2 wroot)\<rparr>
      in case data_dicts st3 ab_dict ''ab_type'' of
           None \<Rightarrow> (st3, [Raised KeyError])
         | Some t \<Rightarrow>
             (let st4 = st3\<lparr>data_dicts :=
                          (data_dicts st3)(ab_dict := (data_dicts st3 ab_dict)(''ab_type'' := None))\<rparr>;
                  st5 = (if ab_type = ISM then st4\<lparr>ism_ab_type := t\<rparr> else st4\<lparr>ej_ab_type := t\<rparr>);
                  st6 = destroy wroot st5
              in (st6, [Destroy wroot, Update_output st6])))"

text \<open>
  \<^verbatim>\<open>ab_window_close\<close>: the input the event came from is validated first, when there is
  an event and the widget has the method.
\<close>

definition ab_window_close ::
  "(string \<Rightarrow> pyval \<Rightarrow> pyval) \<Rightarrow> nat \<Rightarrow> data_key \<Rightarrow> ab_kind \<Rightarrow> tk_event option \<Rightarrow> gui
     \<Rightarrow> gui \<times> gui effect list" where
  "ab_window_close validate wroot ab_dict ab_type event st =
     (case event of
        Some (Event (Some w)) \<Rightarrow>
          (let r = commit_and_destroy wroot ab_dict ab_type (validate_input validate wroot w st)
           in (fst r, Validate w # snd r))
      | _ \<Rightarrow> commit_and_destroy wroot ab_dict ab_type st)"

subsection \<open>Closing an abundance window\<close>

text \<open>
  The three ways a window closes, lines 312 to 316: the button \<^verbatim>\<open>Submit\<close>, the key
  \<^verbatim>\<open><Return>\<close> (the only one that passes its event on) and the request of the window
  manager, \<^verbatim>\<open>WM_DELETE_WINDOW\<close>.
\<close>

datatype close_path = Submit | Return_key tk_event | Wm_delete

fun close_event :: "close_path \<Rightarrow> tk_event option" where
  "close_event Submit = None"
| "close_event (Return_key ev) = Some ev"
| "close_event Wm_delete = None"

definition close_window ::
  "(string \<Rightarrow> pyval \<Rightarrow> pyval) \<Rightarrow> nat \<Rightarrow> close_path \<Rightarrow> gui \<Rightarrow> gui \<times> gui effect list" where
  "close_window validate w p st =
     (case close_bound st w of
        None \<Rightarrow> (st, [])
      | Some (ab_dict, ab_type) \<Rightarrow> ab_window_close validate w ab_dict ab_type (close_event p) st)"

text \<open>The state of a window when its values are read: after the validation, if any.\<close>

definition validated :: "(string \<Rightarrow> pyval \<Rightarrow> pyval) \<Rightarrow> nat \<Rightarrow> close_path \<Rightarrow> gui \<Rightarrow> gui" where
  "validated validate w p st =
     (case close_event p of
        Some (Event (Some i)) \<Rightarrow> validate_input validate w i st
      | _ \<Rightarrow> st)"

text \<open>The two buttons of lines 497 to 501 and the dictionary each passes on.\<close>

fun button_dict :: "ab_kind \<Rightarrow> data_key" where
  "button_dict ISM = Abundance"
| "button_dict Ejecta = Ej_abundance"

subsection \<open>The program once started\<close>

text \<open>
  The state that lines 451 to 535 set up, before \<^verbatim>\<open>model_change(False)\<close> and
  \<^verbatim>\<open>s_change(False)\<close> of lines 558 and 559 run: every widget on the grid, the defaults
  of the inputs, no abundance window. The two transition times come from the physics.
  \<^verbatim>\<open>SNR.data["range"]\<close> is set by the physics module; it is taken to read as the dropdown
  does.
\<close>

definition start_spin :: "axis \<Rightarrow> spinbox" where
  "start_spin a =
     (case a of
        Xmin \<Rightarrow> \<lparr>value_var = 0, previous = 0, opt_increment = 10, opt_to = 100000000\<rparr>
      | Xmax \<Rightarrow> \<lparr>value_var = 900, previous = 900, opt_increment = 100, opt_to = 100000000\<rparr>)"

definition start_vars :: "string \<Rightarrow> pyval" where
  "start_vars w =
     (if w = ''n'' then Num 0 else if w = ''s'' then Str ''0''
      else if w = ''model'' then Str ''cf'' else if w = ''t_tw'' then Str ''4e5''
      else if w = ''c_tau'' then Num 2 else Str [])"

definition start_gui :: "real \<Rightarrow> real \<Rightarrow> gui" where
  "start_gui t_c t_pds =
     \<lparr>data_range = ''Current'', range_var = ''Current'', data_limits = Map.empty,
      spin = start_spin, value_vars = start_vars, previous_vals = start_vars,
      input_values = (\<lambda>w. if w = ''n'' then map Num [0, 2, 4, 6, 7, 8, 9, 10, 12, 14] else []),
      input_state = (\<lambda>w. if w = ''s'' then ''disabled'' else ''normal''),
      model_input = (\<lambda>key. ''normal''), gridded = (\<lambda>w p. True),
      calc_t_c = t_c, calc_t_pds = t_pds,
      data_dicts = (\<lambda>k. case k of Abundance \<Rightarrow> the (ABUNDANCE ''LMC'')
                                 | Ej_abundance \<Rightarrow> the (ABUNDANCE ''Type Ia'')),
      ab_window_open = (\<lambda>k. None), ism_ab_type = Str ''LMC'', ej_ab_type = Str ''Type Ia'',
      next_window = 0, toplevels = Map.empty, instances = Map.empty, close_bound = Map.empty\<rparr>"

text \<open>
  The started program after the user has typed \<open>lo\<close> and \<open>hi\<close> into the two axis
  editors: their Tk variables hold the text, nothing else has happened yet.
\<close>

definition typed_limits :: "int \<Rightarrow> int \<Rightarrow> gui \<Rightarrow> gui" where
  "typed_limits lo hi st =
     st\<lparr>spin := (spin st)(Xmin := (spin st Xmin)\<lparr>value_var := lo\<rparr>,
                             Xmax := (spin st Xmax)\<lparr>value_var := hi\<rparr>)\<rparr>"

text \<open>
  \<^verbatim>\<open>limit_change\<close>, the callback of the dropdown \<^verbatim>\<open>range\<close>, and the user choosing an
  entry of the dropdown.
\<close>

definition limit_change :: "gui \<Rightarrow> gui \<times> gui effect list" where
  "limit_change st = (let st' = st\<lparr>data_range := range_var st\<rparr> in (st', [Display_plot st']))"

definition select_range :: "string \<Rightarrow> gui \<Rightarrow> gui" where
  "select_range v st = fst (limit_change (st\<lparr>range_var := v\<rparr>))"

text \<open>
  The user types \<open>v\<close> into an axis editor and presses Return: \<^verbatim>\<open>enter_pressed\<close> has the
  text validated (it stands when it differs from the other editor's value, lines 532 to
  535) and calls \<^verbatim>\<open>increment_xlimits(widget, 0)\<close>.
\<close>

definition typed_and_entered :: "axis \<Rightarrow> int \<Rightarrow> gui \<Rightarrow> gui" where
  "typed_and_entered widget v st = fst (increment_xlimits widget 0 (set_value_var widget v st))"

text \<open>
  The program ready for the user: lines 558 and 559 have run the two handlers without
  a recomputation.
\<close>

definition ready_gui :: "real \<Rightarrow> real \<Rightarrow> gui" where
  "ready_gui t_c t_pds = fst (s_change False (fst (model_change False (start_gui t_c t_pds))))"

text \<open>
  The user picks a value in the dropdown of \<open>s\<close>, or a model type; the callback of the
  widget runs the handler, which recomputes.
\<close>

definition select_s :: "pyval \<Rightarrow> gui \<Rightarrow> gui" where
  "select_s v st = fst (s_change True (value_var_set ''s'' v st))"

definition select_model :: "pyval \<Rightarrow> gui \<Rightarrow> gui" where
  "select_model m st = fst (model_change True (value_var_set ''model'' m st))"

subsection \<open>What the user can do\<close>

text \<open>
  The actions of the user that reach the handlers above: the two abundance buttons, the
  three ways of closing an abundance window, an edit of an input of an abundance
  window that is alive (a key typed, a preset picked), the dropdowns of \<open>s\<close>, of the
  model type and of the plotted time, the dropdown of \<open>n\<close> (which offers the values it
  is configured with, and whose callback only recomputes), text typed into an axis
  editor, an arrow of an axis editor and the key Return in it.
\<close>

datatype action =
    Press_button ab_kind
  | Close_window nat close_path
  | Edit_input nat string pyval
  | Select_s pyval
  | Select_n pyval
  | Select_model pyval
  | Select_range string
  | Type_limit axis int
  | Arrow axis int
  | Enter axis

fun step :: "(real \<Rightarrow> real) \<Rightarrow> (string \<Rightarrow> pyval \<Rightarrow> pyval) \<Rightarrow> gui \<Rightarrow> action \<Rightarrow> gui" where
  "step fmt validate st (Press_button k) = fst (abundance_window fmt (button_dict k) k st)"
| "step fmt validate st (Close_window w p) = fst (close_window validate w p st)"
| "step fmt validate st (Edit_input w ident v) =
     (case instances st w of
        None \<Rightarrow> st
      | Some m \<Rightarrow>
          (if toplevels st w \<noteq> None \<and> m ident \<noteq> None
           then st\<lparr>instances := (instances st)(w \<mapsto> m(ident \<mapsto> v))\<rparr> else st))"
| "step fmt validate st (Select_s v) = select_s v st"
| "step fmt validate st (Select_n v) =
     (if v \<in> set (input_values st ''n'') then value_var_set ''n'' v st else st)"
| "step fmt validate st (Select_model m) = select_model m st"
| "step fmt validate st (Select_range v) = select_range v st"
| "step fmt validate st (Type_limit a v) = set_value_var a v st"
| "step fmt validate st (Arrow a d) = fst (increment_xlimits a d st)"
| "step fmt validate st (Enter a) = fst (increment_xlimits a 0 st)"

definition run :: "(real \<Rightarrow> real) \<Rightarrow> (string \<Rightarrow> pyval \<Rightarrow> pyval) \<Rightarrow> gui \<Rightarrow> action list \<Rightarrow> gui" where
  "run fmt validate st acts = foldl (step fmt validate) st acts"

text \<open>The abundance windows of a kind that are alive.\<close>

definition live_windows :: "gui \<Rightarrow> ab_kind \<Rightarrow> nat set" where
  "live_windows st k = {w. toplevels st w = Some k}"

text \<open>The part of the state that concerns the abundance windows and the two tables.\<close>

definition window_part ::
  "gui \<Rightarrow> (nat \<rightharpoonup> ab_kind) \<times> (ab_kind \<Rightarrow> nat option) \<times> (nat \<rightharpoonup> data_key \<times> ab_kind)
     \<times> (nat \<rightharpoonup> (string \<rightharpoonup> pyval)) \<times> nat
     \<times> (data_key \<Rightarrow> string \<rightharpoonup> pyval) \<times> pyval \<times> pyval" where
  "window_part st =
     (toplevels st, ab_window_open st, close_bound st, instances st, next_window st,
      data_dicts st, ism_ab_type st, ej_ab_type st)"

text \<open>
  What holds of the windows at all times: a window that is alive is the one registered
  for its kind; the closing callbacks belong to a window that is alive, of the kind
  they hold, whose inputs include the preset selector; the numbers from
  \<open>next_window\<close> on are unused.
\<close>

definition windows_consistent :: "gui \<Rightarrow> bool" where
  "windows_consistent st \<longleftrightarrow>
     (\<forall>w k. toplevels st w = Some k \<longrightarrow> ab_window_open st k = Some w)
     \<and> (\<forall>w d k. close_bound st w = Some (d, k) \<longrightarrow>
           toplevels st w = Some k \<and> (\<exists>m t. instances st w = Some m \<and> m ''ab_type'' = Some t))
     \<and> (\<forall>w. next_window st \<le> w \<longrightarrow> toplevels st w = None \<and> close_bound st w = None)"

text \<open>
  What holds of the index \<open>n\<close> and the wind parameters while \<open>s\<close> reads \<^verbatim>\<open>'0'\<close>.
\<close>

definition zero_rule :: "gui \<Rightarrow> bool" where
  "zero_rule st \<longleftrightarrow>
     (value_vars st ''s'' = Str ''0'' \<longrightarrow>
        zero_settled st
        \<and> input_values st ''n'' = map Num [0, 2, 4, 6, 7, 8, 9, 10, 12, 14])"

section \<open>Properties\<close>

subsection \<open>The logarithm and the quotients\<close>

lemma floor_quot_div: "floor_quot a b = a div b"
  by (simp add: floor_quot_def floor_divide_of_int_eq)

lemma ceil_quot_div: "ceil_quot a b = - ((- a) div b)"
  by (simp add: ceil_quot_def ceiling_divide_eq_div)

lemma floor_log10_bounds:
  "0 < n \<Longrightarrow> 10 ^ floor_log10 n \<le> n \<and> n < 10 ^ Suc (floor_log10 n)"
proof (induction n rule: floor_log10.induct)
  case (1 n)
  show ?case
  proof (cases "n < 10")
    case True
    with "1.prems" show ?thesis by (simp add: floor_log10.simps [of n])
  next
    case False
    then have pos: "0 < n div 10" by simp
    from "1.IH" [OF False pos]
    have lo: "10 ^ floor_log10 (n div 10) \<le> n div 10"
      and hi: "n div 10 < 10 ^ Suc (floor_log10 (n div 10))" by simp_all
    have "10 * 10 ^ floor_log10 (n div 10) \<le> 10 * (n div 10)" using lo by simp
    also have "\<dots> \<le> n" by simp
    finally have a: "10 ^ Suc (floor_log10 (n div 10)) \<le> n" by simp
    from hi have "Suc (n div 10) \<le> 10 ^ Suc (floor_log10 (n div 10))" by simp
    then have "10 * Suc (n div 10) \<le> 10 * 10 ^ Suc (floor_log10 (n div 10))"
      by (rule mult_le_mono2)
    moreover have "n < 10 * Suc (n div 10)" by simp
    ultimately have b: "n < 10 ^ Suc (Suc (floor_log10 (n div 10)))" by simp
    from False a b show ?thesis by (simp add: floor_log10.simps [of n])
  qed
qed

lemma floor_log10_eq: "0 < n \<Longrightarrow> int (floor_log10 n) = \<lfloor>log 10 (real n)\<rfloor>"
  using floor_log10_bounds [of n] floor_log_nat_eq_if [of 10 "floor_log10 n" n] by simp

lemma new_increment_nonpos: "v \<le> 0 \<Longrightarrow> new_increment v d = 10"
  by (simp add: new_increment_def log10_floor_def)

lemma new_increment_pos:
  assumes "0 < v"
  shows "new_increment v d =
     (let step = max (10 ^ nat \<lfloor>log 10 (real_of_int v)\<rfloor>) 10
      in if d = - 1 \<and> v = step \<and> 10 < step then step div 10 else step)"
proof -
  have "int (floor_log10 (nat v)) = \<lfloor>log 10 (real (nat v))\<rfloor>"
    using assms by (intro floor_log10_eq) simp
  then have "floor_log10 (nat v) = nat \<lfloor>log 10 (real_of_int v)\<rfloor>"
    using assms by (simp add: nat_eq_iff2)
  then show ?thesis
    using assms by (auto simp: new_increment_def log10_floor_def Let_def)
qed

subsection \<open>The axis limits: the state after an edit\<close>

lemma force_custom_simps [simp]:
  "spin (force_custom st) = spin st"
  "data_limits (force_custom st) = data_limits st"
  "data_range (force_custom st) = ''Custom''"
  "range_var (force_custom st) = (if data_range st \<noteq> ''Custom'' then ''Custom'' else range_var st)"
  by (simp_all add: force_custom_def)

lemma config_increment_simps [simp]:
  "data_limits (config_increment w i st) = data_limits st"
  "data_range (config_increment w i st) = data_range st"
  "range_var (config_increment w i st) = range_var st"
  "value_var (spin (config_increment w i st) a) = value_var (spin st a)"
  "previous (spin (config_increment w i st) a) = previous (spin st a)"
  "opt_to (spin (config_increment w i st) a) = opt_to (spin st a)"
  "opt_increment (spin (config_increment w i st) a) = (if a = w then i else opt_increment (spin st a))"
  by (simp_all add: config_increment_def)

lemma set_value_var_simps [simp]:
  "data_limits (set_value_var w v st) = data_limits st"
  "data_range (set_value_var w v st) = data_range st"
  "range_var (set_value_var w v st) = range_var st"
  "value_var (spin (set_value_var w v st) a) = (if a = w then v else value_var (spin st a))"
  "previous (spin (set_value_var w v st) a) = previous (spin st a)"
  "opt_to (spin (set_value_var w v st) a) = opt_to (spin st a)"
  "opt_increment (spin (set_value_var w v st) a) = opt_increment (spin st a)"
  by (simp_all add: set_value_var_def)

lemma store_limit_simps [simp]:
  "data_limits (store_limit w v st) = (data_limits st)(identifier_of w \<mapsto> v)"
  "data_range (store_limit w v st) = data_range st"
  "range_var (store_limit w v st) = range_var st"
  "value_var (spin (store_limit w v st) a) = value_var (spin st a)"
  "previous (spin (store_limit w v st) a) = (if a = w then v else previous (spin st a))"
  "opt_to (spin (store_limit w v st) a) = opt_to (spin st a)"
  "opt_increment (spin (store_limit w v st) a) = opt_increment (spin st a)"
  by (simp_all add: store_limit_def)

lemma increment_xlimits_typed:
  "fst (increment_xlimits w 0 st) =
     store_limit w (value_var (spin st w))
       (config_increment w (new_increment (value_var (spin st w)) 0) (force_custom st))"
  by (simp add: increment_xlimits_def Let_def)

lemma increment_xlimits_arrow:
  assumes "d \<noteq> 0"
  shows "fst (increment_xlimits w d st) =
     (if \<not> (value_var (spin st w) = 0 \<and> d = - 1)
         \<and> arrow_result w d st \<noteq> value_var (spin (shown_state w d st) Xmin)
         \<and> arrow_result w d st \<noteq> value_var (spin (shown_state w d st) Xmax)
      then store_limit w (arrow_result w d st) (shown_state w d st)
      else shown_state w d st)"
  using assms
  by (simp add: increment_xlimits_def arrow_edit_def arrow_result_def shown_state_def Let_def
      cong: option.case_cong)

lemma increment_xlimits_effects:
  "snd (increment_xlimits w d st) = [Display_plot (fst (increment_xlimits w d st))]"
  by (simp add: increment_xlimits_def Let_def)

lemma shown_state_simps [simp]:
  "data_limits (shown_state w d st) = data_limits st"
  "data_range (shown_state w d st) = ''Custom''"
  "range_var (shown_state w d st) = (if data_range st \<noteq> ''Custom'' then ''Custom'' else range_var st)"
  "previous (spin (shown_state w d st) a) = previous (spin st a)"
  "opt_to (spin (shown_state w d st) a) = opt_to (spin st a)"
  "opt_increment (spin (shown_state w d st) a) =
     (if a = w then new_increment (value_var (spin st w)) d else opt_increment (spin st a))"
  "a \<noteq> w \<Longrightarrow> value_var (spin (shown_state w d st) a) = value_var (spin st a)"
  by (simp_all add: shown_state_def Let_def split: option.splits)


subsection \<open>The increment\<close>

lemma floor_log10_int:
  assumes "0 < v"
  shows "(10::int) ^ floor_log10 (nat v) \<le> v" and "v < 10 ^ Suc (floor_log10 (nat v))"
proof -
  from assms have "0 < nat v" by simp
  from floor_log10_bounds [OF this]
  have a: "10 ^ floor_log10 (nat v) \<le> nat v" and b: "nat v < 10 ^ Suc (floor_log10 (nat v))"
    by simp_all
  from a have "int (10 ^ floor_log10 (nat v)) \<le> int (nat v)" by (simp only: of_nat_le_iff)
  then show "(10::int) ^ floor_log10 (nat v) \<le> v" using assms by simp
  from b have "int (nat v) < int (10 ^ Suc (floor_log10 (nat v)))" by (simp only: of_nat_less_iff)
  then show "v < 10 ^ Suc (floor_log10 (nat v))" using assms by simp
qed

lemma power10_above: "(10::int) < 10 ^ k \<Longrightarrow> \<exists>j. k = Suc (Suc j)"
  by (cases k; simp) (rename_tac m, case_tac m; simp)

lemma new_increment_power: "\<exists>k. new_increment v d = 10 ^ Suc k"
proof (cases "v \<le> 0")
  case True
  then have "new_increment v d = 10 ^ Suc 0" by (simp add: new_increment_nonpos)
  then show ?thesis ..
next
  case False
  define k where "k = floor_log10 (nat v)"
  show ?thesis
  proof (cases "(10::int) < 10 ^ k")
    case True
    then obtain j where j: "k = Suc (Suc j)" using power10_above by blast
    from True have m: "max ((10::int) ^ k) 10 = 10 ^ k" by simp
    have dv: "(10::int) ^ k div 10 = 10 ^ Suc j" by (simp add: j)
    have "new_increment v d = 10 ^ k \<or> new_increment v d = 10 ^ k div 10"
      using False by (simp add: new_increment_def log10_floor_def Let_def k_def [symmetric] m)
    then have "new_increment v d = 10 ^ Suc (Suc j) \<or> new_increment v d = 10 ^ Suc j"
      unfolding dv unfolding j .
    then show ?thesis by blast
  next
    case False
    then have m: "max ((10::int) ^ k) 10 = 10" by simp
    have "new_increment v d = 10 ^ Suc 0"
      using \<open>\<not> v \<le> 0\<close> by (simp add: new_increment_def log10_floor_def Let_def k_def [symmetric] m)
    then show ?thesis ..
  qed
qed

lemma new_increment_ge10: "10 \<le> new_increment v d"
proof -
  obtain k where "new_increment v d = 10 ^ Suc k" using new_increment_power by blast
  moreover have "(10::int) ^ 1 \<le> 10 ^ Suc k" by (rule power_increasing) simp_all
  ultimately show ?thesis by simp
qed

lemma new_increment_small: "v < 10 \<Longrightarrow> new_increment v d = 10"
proof (cases "v \<le> 0")
  case True
  then show ?thesis by (simp add: new_increment_nonpos)
next
  case False
  assume "v < 10"
  with False have "floor_log10 (nat v) = 0" by (simp add: floor_log10.simps [of "nat v"])
  with False show ?thesis by (simp add: new_increment_def log10_floor_def)
qed

lemma new_increment_le: 
  assumes "10 \<le> v"
  shows "new_increment v d \<le> v"
proof -
  from assms have pos: "0 < v" by simp
  define k where "k = floor_log10 (nat v)"
  have le: "(10::int) ^ k \<le> v" unfolding k_def using floor_log10_int(1) [OF pos] .
  then have m: "max ((10::int) ^ k) 10 \<le> v" using assms by simp
  have "max ((10::int) ^ k) 10 div 10 \<le> max (10 ^ k) 10" by simp
  with m have "max ((10::int) ^ k) 10 div 10 \<le> v" by linarith
  with m show ?thesis
    using pos by (simp add: new_increment_def log10_floor_def Let_def k_def [symmetric] del: max.bounded_iff)
qed


subsection \<open>The value an arrow leads to\<close>

lemma arrow_value_plain:
  assumes "(old + d * inc) mod inc = 0 \<or> (old = maximum \<and> d = 1)"
  shows "arrow_value old maximum inc inc d = (min (old + d * inc) maximum, None)"
  using assms by (auto simp: arrow_value_def Let_def min_def)

lemma arrow_value_up:
  assumes "(old + inc) mod inc \<noteq> 0" "old \<noteq> maximum"
  shows "arrow_value old maximum inc inc 1 =
           (min ((old + inc) div inc * inc) maximum, Some ((old + inc) div inc * inc - inc))"
  using assms by (auto simp: arrow_value_def Let_def min_def floor_quot_div)

lemma arrow_value_down:
  assumes "(old - inc) mod inc \<noteq> 0"
  shows "arrow_value old maximum inc inc (- 1) =
           (min (- ((inc - old) div inc) * inc) maximum, Some (- ((inc - old) div inc) * inc + inc))"
  using assms by (auto simp: arrow_value_def Let_def min_def ceil_quot_div)

lemma nearest_below_div: "0 < inc \<Longrightarrow> nearest_multiple_below inc raw (raw div inc * inc)"
proof -
  assume pos: "0 < inc"
  have eq: "raw div inc * inc = raw - raw mod inc" by (simp add: minus_mod_eq_div_mult)
  have "0 \<le> raw mod inc" "raw mod inc < inc" using pos by simp_all
  then show ?thesis unfolding nearest_multiple_below_def using eq by auto
qed

lemma nearest_above_div: "0 < inc \<Longrightarrow> nearest_multiple_above inc raw (- ((- raw) div inc) * inc)"
proof -
  assume pos: "0 < inc"
  have eq: "- ((- raw) div inc) * inc = raw + (- raw) mod inc"
    using minus_mod_eq_div_mult [of "- raw" inc] by simp
  have b: "0 \<le> (- raw) mod inc" "(- raw) mod inc < inc" using pos by simp_all
  show ?thesis
    unfolding nearest_multiple_above_def
  proof (intro conjI)
    show "inc dvd - (- raw div inc) * inc" by simp
    show "raw \<le> - (- raw div inc) * inc" using eq b by linarith
    show "- (- raw div inc) * inc < raw + inc" using eq b by linarith
  qed
qed

lemma nearest_below_unique:
  assumes "0 < inc" "nearest_multiple_below inc raw s"
  shows "s = raw div inc * inc"
proof -
  from assms(2) obtain q where q: "s = inc * q" and le: "s \<le> raw" and lt: "raw < s + inc"
    by (auto simp: nearest_multiple_below_def dvd_def)
  have "raw div inc = q"
  proof (rule int_div_pos_eq)
    show "raw = inc * q + (raw - s)" using q by simp
    show "0 \<le> raw - s" using le by simp
    show "raw - s < inc" using lt by simp
  qed
  then show ?thesis using q by simp
qed


lemma stored_cases:
  assumes "d \<noteq> 0"
  shows "data_limits (fst (increment_xlimits w d st)) = (data_limits st)(identifier_of w \<mapsto> arrow_result w d st)
       \<or> data_limits (fst (increment_xlimits w d st)) = data_limits st"
  by (simp add: increment_xlimits_arrow [OF assms])

lemma increment_stored:
  "opt_increment (spin (fst (increment_xlimits w d st)) w) = new_increment (value_var (spin st w)) d"
  by (cases "d = 0") (simp_all add: increment_xlimits_arrow increment_xlimits_typed)

text \<open>
  Claim C2. An arrow first moves the value by the step just configured. A value that is
  not a multiple of that step is moved to the nearest multiple below it when the arrow
  goes up and above it when the arrow goes down, unless the editor stands at its upper
  bound and the arrow goes up. The result is cut off at the upper bound, and it is this
  value that is stored when the edit is accepted.
\<close>

theorem arrow_snap_and_clamp:
  assumes "direction = 1 \<or> direction = - 1"
  shows "let old_val = value_var (spin st widget);
             maximum = opt_to (spin st widget);
             step = new_increment old_val direction;
             raw = old_val + direction * step;
             new_val = arrow_result widget direction st;
             st' = fst (increment_xlimits widget direction st)
         in opt_increment (spin st' widget) = step
          \<and> (raw mod step = 0 \<or> (old_val = maximum \<and> direction = 1) \<longrightarrow>
               new_val = min raw maximum)
          \<and> (raw mod step \<noteq> 0 \<and> old_val \<noteq> maximum \<and> direction = 1 \<longrightarrow>
               (\<exists>s. nearest_multiple_below step raw s \<and> new_val = min s maximum))
          \<and> (raw mod step \<noteq> 0 \<and> direction = - 1 \<longrightarrow>
               (\<exists>s. nearest_multiple_above step raw s \<and> new_val = min s maximum))
          \<and> (data_limits st' = (data_limits st)(identifier_of widget \<mapsto> new_val)
               \<or> data_limits st' = data_limits st)"
proof -
  define old_val where "old_val = value_var (spin st widget)"
  define maximum where "maximum = opt_to (spin st widget)"
  define inc where "inc = new_increment old_val direction"
  define raw where "raw = old_val + direction * inc"
  define new_val where "new_val = arrow_result widget direction st"
  have nv: "new_val = fst (arrow_value old_val maximum inc inc direction)"
    by (simp add: new_val_def arrow_result_def Let_def old_val_def maximum_def inc_def)
  have pos: "0 < inc" using new_increment_ge10 [of old_val direction] by (simp add: inc_def)
  from assms have nz: "direction \<noteq> 0" by auto
  have a: "raw mod inc = 0 \<or> (old_val = maximum \<and> direction = 1) \<Longrightarrow> new_val = min raw maximum"
    unfolding nv raw_def by (subst arrow_value_plain) simp_all
  have b: "\<exists>s. nearest_multiple_below inc raw s \<and> new_val = min s maximum"
    if "raw mod inc \<noteq> 0" "old_val \<noteq> maximum" "direction = 1"
  proof -
    have "new_val = min (raw div inc * inc) maximum"
      using that unfolding nv raw_def by (simp add: arrow_value_up)
    with nearest_below_div [OF pos, of raw] show ?thesis by blast
  qed
  have c: "\<exists>s. nearest_multiple_above inc raw s \<and> new_val = min s maximum"
    if "raw mod inc \<noteq> 0" "direction = - 1"
  proof -
    have "new_val = min (- ((- raw) div inc) * inc) maximum"
      using that unfolding nv raw_def by (simp add: arrow_value_down)
    with nearest_above_div [OF pos, of raw] show ?thesis by blast
  qed
  have d: "opt_increment (spin (fst (increment_xlimits widget direction st)) widget) = inc"
    by (simp add: increment_stored inc_def old_val_def)
  have e: "data_limits (fst (increment_xlimits widget direction st))
             = (data_limits st)(identifier_of widget \<mapsto> new_val)
         \<or> data_limits (fst (increment_xlimits widget direction st)) = data_limits st"
    unfolding new_val_def by (rule stored_cases [OF nz])
  from a b c d e show ?thesis
    unfolding Let_def old_val_def [symmetric] maximum_def [symmetric] inc_def [symmetric]
      raw_def [symmetric] new_val_def [symmetric]
    by blast
qed


lemmas axis_eval = typed_limits_def start_gui_def start_spin_def arrow_result_def arrow_value_def
  floor_quot_div ceil_quot_div shown_state_def increment_xlimits_arrow increment_xlimits_typed Let_def

lemma new_increment_105: "new_increment 105 1 = 100"
  by (simp add: new_increment_def log10_floor_def floor_log10.simps)

text \<open>
  With 105 typed into the minimum editor, the upward arrow steps by 100 to 205, which
  is moved down to 200 and stored.
\<close>

theorem arrow_snap_and_clamp_witness:
  "opt_increment (spin (fst (increment_xlimits Xmin 1 (typed_limits 105 900 (start_gui 1 1)))) Xmin) = 100
   \<and> (\<exists>s. nearest_multiple_below 100 205 s
          \<and> arrow_result Xmin 1 (typed_limits 105 900 (start_gui 1 1)) = min s 100000000)
   \<and> arrow_result Xmin 1 (typed_limits 105 900 (start_gui 1 1)) = 200
   \<and> data_limits (fst (increment_xlimits Xmin 1 (typed_limits 105 900 (start_gui 1 1)))) ''xmin''
       = Some 200"
proof -
  have h: "(1::int) = 1 \<or> (1::int) = - 1" by simp
  have v: "value_var (spin (typed_limits 105 900 (start_gui 1 1)) Xmin) = 105"
    "opt_to (spin (typed_limits 105 900 (start_gui 1 1)) Xmin) = 100000000"
    by (simp_all add: typed_limits_def start_gui_def start_spin_def)
  have r: "arrow_result Xmin 1 (typed_limits 105 900 (start_gui 1 1)) = 200"
    by (simp add: axis_eval new_increment_105)
  have d: "data_limits (fst (increment_xlimits Xmin 1 (typed_limits 105 900 (start_gui 1 1)))) ''xmin''
       = Some 200"
    by (simp add: axis_eval new_increment_105)
  from arrow_snap_and_clamp [OF h, of "typed_limits 105 900 (start_gui 1 1)" Xmin]
  have "opt_increment (spin (fst (increment_xlimits Xmin 1 (typed_limits 105 900 (start_gui 1 1)))) Xmin) = 100
   \<and> (\<exists>s. nearest_multiple_below 100 205 s
          \<and> arrow_result Xmin 1 (typed_limits 105 900 (start_gui 1 1)) = min s 100000000)"
    unfolding Let_def v new_increment_105 by simp
  with r d show ?thesis by blast
qed


subsection \<open>The increment an edit configures\<close>

lemma floor_log10_100: "\<lfloor>log 10 (100::real)\<rfloor> = 2"
  by (simp add: floor_log_eq_powr_iff)

text \<open>
  Claim C1. The increment configured by an edit is ten to the floor of the base ten
  logarithm of the current value, and at least ten; it is ten when the value is zero or
  negative. On a decrement from a value that equals this increment and exceeds ten, the
  increment is divided by ten first, and the arrow then moves the value by the smaller
  increment.
\<close>

theorem increment_step_size:
  "let v = value_var (spin st widget);
       base = max (10 ^ nat \<lfloor>log 10 (real_of_int v)\<rfloor>) 10;
       st' = fst (increment_xlimits widget direction st)
   in opt_increment (spin st' widget) =
        (if 0 < v
         then (if direction = - 1 \<and> v = base \<and> 10 < base then base div 10 else base)
         else 10)
    \<and> (direction = - 1 \<and> 0 < v \<and> v = base \<and> 10 < base \<longrightarrow>
          arrow_result widget direction st = min (v - v div 10) (opt_to (spin st widget)))"
proof -
  define v where "v = value_var (spin st widget)"
  define base :: int where "base = max (10 ^ nat \<lfloor>log 10 (real_of_int v)\<rfloor>) 10"
  have a: "opt_increment (spin (fst (increment_xlimits widget direction st)) widget) =
        (if 0 < v
         then (if direction = - 1 \<and> v = base \<and> 10 < base then base div 10 else base)
         else 10)"
  proof (cases "0 < v")
    case True
    from new_increment_pos [OF True, of direction] True show ?thesis
      by (simp add: increment_stored v_def [symmetric] base_def Let_def)
  next
    case False
    then show ?thesis by (simp add: increment_stored v_def [symmetric] new_increment_nonpos)
  qed
  have b: "arrow_result widget direction st = min (v - v div 10) (opt_to (spin st widget))"
    if "direction = - 1" "0 < v" "v = base" "10 < base"
  proof -
    have "new_increment v (- 1) = (if v = base \<and> 10 < base then base div 10 else base)"
      using new_increment_pos [OF that(2), of "- 1"]
      unfolding Let_def base_def [symmetric] by simp
    then have ni: "new_increment v (- 1) = v div 10"
      using that(3,4) by simp
    define n where "n = nat \<lfloor>log 10 (real_of_int v)\<rfloor>"
    have bn: "base = max (10 ^ n) 10" unfolding base_def n_def ..
    from that(4) have "(10::int) < 10 ^ n" unfolding bn by (simp add: max_def split: if_splits)
    then have "base = 10 ^ n" unfolding bn by simp
    moreover obtain j where "n = Suc (Suc j)" using \<open>10 < 10 ^ n\<close> power10_above by blast
    ultimately have "10 dvd base" by simp
    then have "10 dvd v" using that(3) by simp
    then have v10: "v = 10 * (v div 10)" by simp
    have "(v + - 1 * (v div 10)) mod (v div 10) = 0"
      by (subst v10) (simp add: algebra_simps)
    then have "arrow_value v (opt_to (spin st widget)) (v div 10) (v div 10) (- 1)
       = (min (v + - 1 * (v div 10)) (opt_to (spin st widget)), None)"
      by (intro arrow_value_plain) simp
    then show ?thesis
      using that(1) by (simp add: arrow_result_def Let_def v_def [symmetric] ni)
  qed
  from a b show ?thesis
    unfolding Let_def v_def [symmetric] base_def [symmetric] by blast
qed


lemma new_increment_100: "new_increment 100 (- 1) = 10"
  by (simp add: new_increment_def log10_floor_def floor_log10.simps)

text \<open>From 100 a decrement configures the increment 10 and stores 90.\<close>

theorem increment_step_size_witness:
  "opt_increment (spin (fst (increment_xlimits Xmax (- 1) (typed_limits 0 100 (start_gui 1 1)))) Xmax) = 10
   \<and> arrow_result Xmax (- 1) (typed_limits 0 100 (start_gui 1 1)) = 90
   \<and> data_limits (fst (increment_xlimits Xmax (- 1) (typed_limits 0 100 (start_gui 1 1)))) ''xmax''
       = Some 90"
proof -
  have v: "value_var (spin (typed_limits 0 100 (start_gui 1 1)) Xmax) = 100"
    "opt_to (spin (typed_limits 0 100 (start_gui 1 1)) Xmax) = 100000000"
    by (simp_all add: typed_limits_def start_gui_def start_spin_def)
  from increment_step_size [of "typed_limits 0 100 (start_gui 1 1)" Xmax "- 1"]
  have "opt_increment (spin (fst (increment_xlimits Xmax (- 1) (typed_limits 0 100 (start_gui 1 1)))) Xmax) = 10
   \<and> arrow_result Xmax (- 1) (typed_limits 0 100 (start_gui 1 1)) = 90"
    unfolding Let_def v by (simp add: floor_log10_100)
  moreover have "data_limits (fst (increment_xlimits Xmax (- 1) (typed_limits 0 100 (start_gui 1 1)))) ''xmax''
       = Some 90"
    by (simp add: axis_eval new_increment_100)
  ultimately show ?thesis by blast
qed


subsection \<open>Accepted and rejected arrows\<close>

lemma increment_xlimits_accepted:
  assumes "d \<noteq> 0"
  shows "fst (increment_xlimits w d st) =
     (if accepted w d st then store_limit w (arrow_result w d st) (shown_state w d st)
      else shown_state w d st)"
  unfolding increment_xlimits_arrow [OF assms] accepted_def by simp

lemma other_neq [simp]: "other w \<noteq> w" "w \<noteq> other w"
  by (cases w; simp)+

lemma accepted_not_paired:
  "accepted w d st \<Longrightarrow> arrow_result w d st \<noteq> value_var (spin st (other w))"
  by (cases w) (auto simp: accepted_def)

lemma paired_not_accepted:
  "arrow_result w d st = value_var (spin st (other w)) \<Longrightarrow> \<not> accepted w d st"
  using accepted_not_paired by blast

lemma arrow_result_nonneg:
  assumes dir: "d = 1 \<or> d = - 1"
    and v: "0 \<le> value_var (spin st w)"
    and m: "0 \<le> opt_to (spin st w)"
    and nz: "\<not> (value_var (spin st w) = 0 \<and> d = - 1)"
  shows "0 \<le> arrow_result w d st"
proof -
  define old where "old = value_var (spin st w)"
  define maximum where "maximum = opt_to (spin st w)"
  define inc where "inc = new_increment old d"
  have pos: "0 < inc" using new_increment_ge10 [of old d] by (simp add: inc_def)
  have res: "arrow_result w d st = fst (arrow_value old maximum inc inc d)"
    by (simp add: arrow_result_def Let_def old_def maximum_def inc_def)
  have key: "0 \<le> maximum" using m by (simp add: maximum_def)
  from dir have "0 \<le> fst (arrow_value old maximum inc inc d)"
  proof
    assume d1: "d = 1"
    have raw: "0 \<le> old + inc" using v pos by (simp add: old_def)
    show ?thesis
    proof (cases "(old + inc) mod inc = 0 \<or> old = maximum")
      case True
      then have "arrow_value old maximum inc inc d = (min (old + d * inc) maximum, None)"
        unfolding d1 by (intro arrow_value_plain) auto
      then show ?thesis using raw key by (simp add: d1)
    next
      case False
      then have "arrow_value old maximum inc inc 1 =
           (min ((old + inc) div inc * inc) maximum, Some ((old + inc) div inc * inc - inc))"
        by (intro arrow_value_up) auto
      moreover have "0 \<le> (old + inc) div inc * inc"
      proof -
        have q: "0 \<le> (old + inc) div inc"
          using raw pos by (simp only: pos_imp_zdiv_nonneg_iff)
        show ?thesis by (rule mult_nonneg_nonneg [OF q]) (use pos in simp)
      qed
      ultimately show ?thesis using key by (simp add: d1)
    qed
  next
    assume d2: "d = - 1"
    with nz v have opos: "0 < old" by (simp add: old_def)
    show ?thesis
    proof (cases "old < 10")
      case True
      then have i10: "inc = 10" by (simp add: inc_def new_increment_small)
      from True opos have "(old - 10) mod 10 \<noteq> 0" by presburger
      then have "arrow_value old maximum 10 10 (- 1) =
           (min (- ((10 - old) div 10) * 10) maximum, Some (- ((10 - old) div 10) * 10 + 10))"
        by (rule arrow_value_down)
      moreover from True opos have "(10 - old) div 10 = 0" by simp
      ultimately show ?thesis using key by (simp add: d2 i10)
    next
      case False
      then have "inc \<le> old" unfolding inc_def by (intro new_increment_le) simp
      then have raw: "0 \<le> old - inc" by simp
      show ?thesis
      proof (cases "(old - inc) mod inc = 0")
        case True
        then have "arrow_value old maximum inc inc d = (min (old + d * inc) maximum, None)"
          unfolding d2 by (intro arrow_value_plain) simp
        then show ?thesis using raw key by (simp add: d2)
      next
        case False
        then have "arrow_value old maximum inc inc (- 1) =
           (min (- ((inc - old) div inc) * inc) maximum, Some (- ((inc - old) div inc) * inc + inc))"
          by (rule arrow_value_down)
        moreover have "old - inc \<le> - ((- (old - inc)) div inc) * inc"
          using nearest_above_div [OF pos, of "old - inc"] by (simp add: nearest_multiple_above_def)
        then have "0 \<le> - ((inc - old) div inc) * inc" using raw by simp
        ultimately show ?thesis using key by (simp add: d2)
      qed
    qed
  qed
  then show ?thesis unfolding res .
qed


subsection \<open>What every edit of an axis editor does\<close>

text \<open>
  Claim C10. Whatever the edit and whether or not a value is stored, the range reads
  \<^verbatim>\<open>Custom\<close> afterwards (the dropdown is set when the range was a named one), the
  increment of the editor is the one computed from its value, and the plot is drawn
  again, once, with no other call. A typed value is stored as it stands. An arrow whose
  value is not accepted leaves the stored limit and \<^verbatim>\<open>previous\<close> as they were; that is
  so for a decrement from zero and for a value equal to that of the paired editor.
\<close>

theorem edit_effects_whether_stored_or_not:
  "let v = value_var (spin st widget);
       st' = fst (increment_xlimits widget direction st)
   in data_range st' = ''Custom''
    \<and> range_var st' = (if data_range st \<noteq> ''Custom'' then ''Custom'' else range_var st)
    \<and> opt_increment (spin st' widget) = new_increment v direction
    \<and> snd (increment_xlimits widget direction st) = [Display_plot st']
    \<and> (direction = 0 \<longrightarrow> data_limits st' = (data_limits st)(identifier_of widget \<mapsto> v))
    \<and> (direction \<noteq> 0 \<and> \<not> accepted widget direction st \<longrightarrow>
          data_limits st' = data_limits st \<and> previous (spin st' widget) = previous (spin st widget))
    \<and> (v = 0 \<and> direction = - 1 \<longrightarrow> \<not> accepted widget direction st)
    \<and> (arrow_result widget direction st = value_var (spin st (other widget)) \<longrightarrow>
          \<not> accepted widget direction st)"
proof -
  have a: "data_range (fst (increment_xlimits widget direction st)) = ''Custom''"
    by (cases "direction = 0") (simp_all add: increment_xlimits_accepted increment_xlimits_typed)
  have b: "range_var (fst (increment_xlimits widget direction st)) =
      (if data_range st \<noteq> ''Custom'' then ''Custom'' else range_var st)"
    by (cases "direction = 0") (simp_all add: increment_xlimits_accepted increment_xlimits_typed)
  have c: "direction = 0 \<Longrightarrow> data_limits (fst (increment_xlimits widget direction st))
      = (data_limits st)(identifier_of widget \<mapsto> value_var (spin st widget))"
    by (simp add: increment_xlimits_typed)
  have d: "direction \<noteq> 0 \<Longrightarrow> \<not> accepted widget direction st \<Longrightarrow>
      data_limits (fst (increment_xlimits widget direction st)) = data_limits st
      \<and> previous (spin (fst (increment_xlimits widget direction st)) widget) = previous (spin st widget)"
    by (simp add: increment_xlimits_accepted)
  have e: "value_var (spin st widget) = 0 \<and> direction = - 1 \<Longrightarrow> \<not> accepted widget direction st"
    by (simp add: accepted_def)
  from a b c d e show ?thesis
    unfolding Let_def
    using increment_stored [of widget direction st] increment_xlimits_effects [of widget direction st]
      paired_not_accepted [of widget direction st]
    by blast
qed

text \<open>
  With \<^verbatim>\<open>PDS\<close> chosen as the plotted time, 800 typed into the minimum editor and the
  maximum at 900, the upward arrow leads to 900 and is not accepted; the range and the
  increment change all the same.
\<close>

theorem edit_effects_whether_stored_or_not_witness:
  "\<not> accepted Xmin 1 (typed_limits 800 900 (select_range ''PDS'' (start_gui 1 1)))
   \<and> data_range (typed_limits 800 900 (select_range ''PDS'' (start_gui 1 1))) = ''PDS''
   \<and> data_range (fst (increment_xlimits Xmin 1 (typed_limits 800 900 (select_range ''PDS'' (start_gui 1 1))))) = ''Custom''
   \<and> range_var (fst (increment_xlimits Xmin 1 (typed_limits 800 900 (select_range ''PDS'' (start_gui 1 1))))) = ''Custom''
   \<and> opt_increment (spin (fst (increment_xlimits Xmin 1 (typed_limits 800 900 (select_range ''PDS'' (start_gui 1 1))))) Xmin) = 100
   \<and> snd (increment_xlimits Xmin 1 (typed_limits 800 900 (select_range ''PDS'' (start_gui 1 1))))
       = [Display_plot (fst (increment_xlimits Xmin 1 (typed_limits 800 900 (select_range ''PDS'' (start_gui 1 1)))))]
   \<and> data_limits (fst (increment_xlimits Xmin 1 (typed_limits 800 900 (select_range ''PDS'' (start_gui 1 1)))))
       = data_limits (typed_limits 800 900 (select_range ''PDS'' (start_gui 1 1)))"
proof -
  have ni: "new_increment 800 1 = 100"
    by (simp add: new_increment_def log10_floor_def floor_log10.simps)
  have v: "value_var (spin (typed_limits 800 900 (select_range ''PDS'' (start_gui 1 1))) Xmin) = 800"
    "value_var (spin (typed_limits 800 900 (select_range ''PDS'' (start_gui 1 1))) (other Xmin)) = 900"
    "data_range (typed_limits 800 900 (select_range ''PDS'' (start_gui 1 1))) = ''PDS''"
    by (simp_all add: typed_limits_def start_gui_def start_spin_def select_range_def limit_change_def
        Let_def)
  have r: "arrow_result Xmin 1 (typed_limits 800 900 (select_range ''PDS'' (start_gui 1 1))) = 900"
    by (simp add: typed_limits_def start_gui_def start_spin_def select_range_def limit_change_def
        arrow_result_def arrow_value_def Let_def ni)
  from edit_effects_whether_stored_or_not [of "typed_limits 800 900 (select_range ''PDS'' (start_gui 1 1))" Xmin 1]
  show ?thesis
    unfolding Let_def v r ni by simp
qed


subsection \<open>An arrow that meets the paired bound\<close>

text \<open>
  Claim C3 says that an edit which would bring the minimum to the maximum or beyond
  changes nothing: not the stored value, the mode or the step. The user chooses
  \<^verbatim>\<open>PDS\<close> as the plotted time, types 800 into the minimum editor, whose increment is
  still 10, and uses the upward arrow. The arrow leads to 900, the value of the maximum
  editor, and nothing is stored; yet the range now reads \<^verbatim>\<open>Custom\<close> and the increment
  is 100. And an arrow that leads beyond the maximum is not turned away at all: with
  850 and 860 entered, the upward arrow of the minimum stores 900.
\<close>

theorem collision_changes_mode_and_step:
  "arrow_result Xmin 1 (typed_limits 800 900 (select_range ''PDS'' (start_gui 1 1)))
     = value_var (spin (typed_limits 800 900 (select_range ''PDS'' (start_gui 1 1))) Xmax)
   \<and> data_limits (fst (increment_xlimits Xmin 1 (typed_limits 800 900 (select_range ''PDS'' (start_gui 1 1)))))
       = data_limits (typed_limits 800 900 (select_range ''PDS'' (start_gui 1 1)))
   \<and> data_range (typed_limits 800 900 (select_range ''PDS'' (start_gui 1 1))) = ''PDS''
   \<and> data_range (fst (increment_xlimits Xmin 1 (typed_limits 800 900 (select_range ''PDS'' (start_gui 1 1))))) = ''Custom''
   \<and> opt_increment (spin (typed_limits 800 900 (select_range ''PDS'' (start_gui 1 1))) Xmin) = 10
   \<and> opt_increment (spin (fst (increment_xlimits Xmin 1 (typed_limits 800 900 (select_range ''PDS'' (start_gui 1 1))))) Xmin) = 100
   \<and> data_limits (typed_and_entered Xmax 860 (typed_and_entered Xmin 850 (start_gui 1 1))) ''xmax''
       = Some 860
   \<and> data_limits (fst (increment_xlimits Xmin 1
        (typed_and_entered Xmax 860 (typed_and_entered Xmin 850 (start_gui 1 1))))) ''xmin'' = Some 900"
proof -
  have ni: "new_increment 800 1 = 100" "new_increment 850 1 = 100"
    by (simp_all add: new_increment_def log10_floor_def floor_log10.simps)
  show ?thesis
    by (simp add: increment_xlimits_accepted accepted_def axis_eval select_range_def limit_change_def
        typed_and_entered_def ni)
qed

text \<open>
  Claim C3, amended. An arrow that leads to the current value of the paired editor
  stores nothing: the stored limits and \<^verbatim>\<open>previous\<close> of both editors stay, and the only
  call is the one that draws the plot, so nothing is recomputed. The range is set to
  \<^verbatim>\<open>Custom\<close> and the increment is computed and configured all the same.
\<close>

theorem collision_keeps_stored_value:
  assumes "direction \<noteq> 0"
    and "arrow_result widget direction st = value_var (spin st (other widget))"
  shows "let st' = fst (increment_xlimits widget direction st)
         in data_limits st' = data_limits st
          \<and> previous (spin st' Xmin) = previous (spin st Xmin)
          \<and> previous (spin st' Xmax) = previous (spin st Xmax)
          \<and> snd (increment_xlimits widget direction st) = [Display_plot st']
          \<and> data_range st' = ''Custom''
          \<and> opt_increment (spin st' widget) = new_increment (value_var (spin st widget)) direction"
proof -
  from assms(2) have "\<not> accepted widget direction st" by (rule paired_not_accepted)
  then have "fst (increment_xlimits widget direction st) = shown_state widget direction st"
    by (simp add: increment_xlimits_accepted [OF assms(1)])
  then show ?thesis
    using increment_xlimits_effects [of widget direction st] by (simp add: Let_def)
qed

text \<open>With the editors at 0 and 10, the downward arrow of the maximum leads to 0.\<close>

theorem collision_keeps_stored_value_witness:
  "arrow_result Xmax (- 1) (typed_limits 0 10 (start_gui 1 1))
     = value_var (spin (typed_limits 0 10 (start_gui 1 1)) (other Xmax))
   \<and> data_limits (fst (increment_xlimits Xmax (- 1) (typed_limits 0 10 (start_gui 1 1))))
       = data_limits (typed_limits 0 10 (start_gui 1 1))
   \<and> snd (increment_xlimits Xmax (- 1) (typed_limits 0 10 (start_gui 1 1)))
       = [Display_plot (fst (increment_xlimits Xmax (- 1) (typed_limits 0 10 (start_gui 1 1))))]
   \<and> data_range (fst (increment_xlimits Xmax (- 1) (typed_limits 0 10 (start_gui 1 1)))) = ''Custom''
   \<and> opt_increment (spin (fst (increment_xlimits Xmax (- 1) (typed_limits 0 10 (start_gui 1 1)))) Xmax) = 10"
proof -
  have ni: "new_increment 10 (- 1) = 10"
    by (simp add: new_increment_def log10_floor_def floor_log10.simps)
  have nz: "(- 1::int) \<noteq> 0" by simp
  have r: "arrow_result Xmax (- 1) (typed_limits 0 10 (start_gui 1 1))
     = value_var (spin (typed_limits 0 10 (start_gui 1 1)) (other Xmax))"
    by (simp add: typed_limits_def start_gui_def start_spin_def arrow_result_def arrow_value_def ni)
  have v: "value_var (spin (typed_limits 0 10 (start_gui 1 1)) Xmax) = 10"
    by (simp add: typed_limits_def start_gui_def start_spin_def)
  from collision_keeps_stored_value [OF nz r] r show ?thesis
    unfolding Let_def v ni by simp
qed

subsection \<open>The values an arrow stores\<close>

text \<open>
  Claim C4 says that a value which equals or crosses the paired bound is never stored.
  The user enters 850 as minimum and 860 as maximum and uses the upward arrow of the
  minimum: 950 is moved down to 900, which is neither 800 (what the minimum editor
  shows at that moment) nor 860, and 900 is stored as minimum above the maximum 860.
\<close>

theorem arrow_crosses_paired_bound:
  "data_limits (typed_and_entered Xmax 860 (typed_and_entered Xmin 850 (start_gui 1 1))) ''xmin'' = Some 850
   \<and> data_limits (typed_and_entered Xmax 860 (typed_and_entered Xmin 850 (start_gui 1 1))) ''xmax'' = Some 860
   \<and> value_var (spin (typed_and_entered Xmax 860 (typed_and_entered Xmin 850 (start_gui 1 1))) Xmax) = 860
   \<and> data_limits (fst (increment_xlimits Xmin 1
        (typed_and_entered Xmax 860 (typed_and_entered Xmin 850 (start_gui 1 1))))) ''xmin'' = Some 900
   \<and> data_limits (fst (increment_xlimits Xmin 1
        (typed_and_entered Xmax 860 (typed_and_entered Xmin 850 (start_gui 1 1))))) ''xmax'' = Some 860"
proof -
  have ni: "new_increment 850 1 = 100"
    by (simp add: new_increment_def log10_floor_def floor_log10.simps)
  show ?thesis
    by (simp add: typed_and_entered_def increment_xlimits_accepted accepted_def axis_eval ni)
qed

text \<open>
  Claim C4, amended. When an arrow is used in an editor whose value and upper bound are
  not negative, a value is stored only if the guard accepts it; an accepted value is
  not negative and differs from the current value of either editor, the paired one in
  particular; a decrement from zero is never accepted. Whether the value lies beyond
  the paired bound is not examined.
\<close>

theorem accepted_arrow_value:
  assumes "direction = 1 \<or> direction = - 1"
    and "0 \<le> value_var (spin st widget)"
    and "0 \<le> opt_to (spin st widget)"
  shows "let st' = fst (increment_xlimits widget direction st);
             new_val = arrow_result widget direction st
         in (if accepted widget direction st
             then data_limits st' = (data_limits st)(identifier_of widget \<mapsto> new_val)
                \<and> 0 \<le> new_val
                \<and> new_val \<noteq> value_var (spin st' Xmin)
                \<and> new_val \<noteq> value_var (spin st' Xmax)
                \<and> new_val \<noteq> value_var (spin st (other widget))
             else data_limits st' = data_limits st)
          \<and> (value_var (spin st widget) = 0 \<and> direction = - 1 \<longrightarrow> \<not> accepted widget direction st)"
proof -
  from assms(1) have nz: "direction \<noteq> 0" by auto
  have z: "value_var (spin st widget) = 0 \<and> direction = - 1 \<longrightarrow> \<not> accepted widget direction st"
    by (simp add: accepted_def)
  have main: "if accepted widget direction st
     then data_limits (fst (increment_xlimits widget direction st))
            = (data_limits st)(identifier_of widget \<mapsto> arrow_result widget direction st)
        \<and> 0 \<le> arrow_result widget direction st
        \<and> arrow_result widget direction st
            \<noteq> value_var (spin (fst (increment_xlimits widget direction st)) Xmin)
        \<and> arrow_result widget direction st
            \<noteq> value_var (spin (fst (increment_xlimits widget direction st)) Xmax)
        \<and> arrow_result widget direction st \<noteq> value_var (spin st (other widget))
     else data_limits (fst (increment_xlimits widget direction st)) = data_limits st"
  proof (cases "accepted widget direction st")
    case True
    then have n0: "\<not> (value_var (spin st widget) = 0 \<and> direction = - 1)"
      by (simp add: accepted_def)
    from arrow_result_nonneg [OF assms n0] have "0 \<le> arrow_result widget direction st" .
    moreover from True have "arrow_result widget direction st \<noteq> value_var (spin st (other widget))"
      by (rule accepted_not_paired)
    moreover from True have
      "arrow_result widget direction st \<noteq> value_var (spin (shown_state widget direction st) Xmin)"
      "arrow_result widget direction st \<noteq> value_var (spin (shown_state widget direction st) Xmax)"
      by (simp_all add: accepted_def)
    ultimately show ?thesis
      using True by (simp add: increment_xlimits_accepted [OF nz])
  next
    case False
    then show ?thesis by (simp add: increment_xlimits_accepted [OF nz])
  qed
  from main z show ?thesis unfolding Let_def by (rule conjI)
qed

text \<open>
  In the started program the upward arrow of the minimum stores 10; the downward arrow
  is not accepted and stores nothing.
\<close>

theorem accepted_arrow_value_witness:
  "accepted Xmin 1 (start_gui 1 1)
   \<and> arrow_result Xmin 1 (start_gui 1 1) = 10
   \<and> data_limits (fst (increment_xlimits Xmin 1 (start_gui 1 1))) ''xmin'' = Some 10
   \<and> value_var (spin (start_gui 1 1) (other Xmin)) = 900
   \<and> \<not> accepted Xmin (- 1) (start_gui 1 1)
   \<and> data_limits (fst (increment_xlimits Xmin (- 1) (start_gui 1 1))) = data_limits (start_gui 1 1)"
proof -
  have ni: "new_increment 0 1 = 10" "new_increment 0 (- 1) = 10"
    by (simp_all add: new_increment_nonpos)
  have h1: "(1::int) = 1 \<or> (1::int) = - 1" and h2: "(- 1::int) = 1 \<or> (- 1::int) = - 1" by simp_all
  have v: "0 \<le> value_var (spin (start_gui 1 1) Xmin)" "0 \<le> opt_to (spin (start_gui 1 1) Xmin)"
    by (simp_all add: start_gui_def start_spin_def)
  have acc: "accepted Xmin 1 (start_gui 1 1)" "arrow_result Xmin 1 (start_gui 1 1) = 10"
    "value_var (spin (start_gui 1 1) Xmin) = 0"
    "value_var (spin (start_gui 1 1) (other Xmin)) = 900"
    by (simp_all add: accepted_def start_gui_def start_spin_def arrow_result_def arrow_value_def
        shown_state_def Let_def ni)
  from accepted_arrow_value [OF h1 v] accepted_arrow_value [OF h2 v] acc
  show ?thesis unfolding Let_def by (simp split: if_splits)
qed


subsection \<open>The statements of the handlers\<close>

lemma seq_simps [simp]: "seq [] st = st" "seq (f # fs) st = seq fs (f st)"
  by (simp_all add: seq_def)

lemma grid_simps [simp]:
  "gridded (grid w p st) = (gridded st)(w := (gridded st w)(p := True))"
  "value_vars (grid w p st) = value_vars st"
  "previous_vals (grid w p st) = previous_vals st"
  "input_values (grid w p st) = input_values st"
  "input_state (grid w p st) = input_state st"
  "model_input (grid w p st) = model_input st"
  "calc_t_c (grid w p st) = calc_t_c st"
  "calc_t_pds (grid w p st) = calc_t_pds st"
  by (simp_all add: grid_def)

lemma grid_remove_simps [simp]:
  "gridded (grid_remove w p st) = (gridded st)(w := (gridded st w)(p := False))"
  "value_vars (grid_remove w p st) = value_vars st"
  "previous_vals (grid_remove w p st) = previous_vals st"
  "input_values (grid_remove w p st) = input_values st"
  "input_state (grid_remove w p st) = input_state st"
  "model_input (grid_remove w p st) = model_input st"
  "calc_t_c (grid_remove w p st) = calc_t_c st"
  "calc_t_pds (grid_remove w p st) = calc_t_pds st"
  by (simp_all add: grid_remove_def)

lemma config_state_simps [simp]:
  "gridded (config_state w v st) = gridded st"
  "value_vars (config_state w v st) = value_vars st"
  "previous_vals (config_state w v st) = previous_vals st"
  "input_values (config_state w v st) = input_values st"
  "input_state (config_state w v st) = (input_state st)(w := v)"
  "model_input (config_state w v st) = model_input st"
  "calc_t_c (config_state w v st) = calc_t_c st"
  "calc_t_pds (config_state w v st) = calc_t_pds st"
  by (simp_all add: config_state_def)

lemma config_model_input_simps [simp]:
  "gridded (config_model_input w v st) = gridded st"
  "value_vars (config_model_input w v st) = value_vars st"
  "previous_vals (config_model_input w v st) = previous_vals st"
  "input_values (config_model_input w v st) = input_values st"
  "input_state (config_model_input w v st) = input_state st"
  "model_input (config_model_input w v st) = (model_input st)(w := v)"
  "calc_t_c (config_model_input w v st) = calc_t_c st"
  "calc_t_pds (config_model_input w v st) = calc_t_pds st"
  by (simp_all add: config_model_input_def)

lemma config_values_simps [simp]:
  "gridded (config_values w v st) = gridded st"
  "value_vars (config_values w v st) = value_vars st"
  "previous_vals (config_values w v st) = previous_vals st"
  "input_values (config_values w v st) = (input_values st)(w := v)"
  "input_state (config_values w v st) = input_state st"
  "model_input (config_values w v st) = model_input st"
  "calc_t_c (config_values w v st) = calc_t_c st"
  "calc_t_pds (config_values w v st) = calc_t_pds st"
  by (simp_all add: config_values_def)

lemma value_var_set_simps [simp]:
  "gridded (value_var_set w v st) = gridded st"
  "value_vars (value_var_set w v st) = (value_vars st)(w := v)"
  "previous_vals (value_var_set w v st) = previous_vals st"
  "input_values (value_var_set w v st) = input_values st"
  "input_state (value_var_set w v st) = input_state st"
  "model_input (value_var_set w v st) = model_input st"
  "calc_t_c (value_var_set w v st) = calc_t_c st"
  "calc_t_pds (value_var_set w v st) = calc_t_pds st"
  by (simp_all add: value_var_set_def)

lemma revert_value_simps [simp]:
  "gridded (revert_value w st) = gridded st"
  "value_vars (revert_value w st) = (value_vars st)(w := previous_vals st w)"
  "previous_vals (revert_value w st) = previous_vals st"
  "input_values (revert_value w st) = input_values st"
  "input_state (revert_value w st) = input_state st"
  "model_input (revert_value w st) = model_input st"
  by (simp_all add: revert_value_def)

subsection \<open>The ambient index\<close>

lemma s_change_effects:
  "snd (s_change update st) = (if update then [Update_output (fst (s_change update st))] else [])"
  by (simp add: s_change_def Let_def)

lemma s_change_nonzero:
  assumes "value_vars st ''s'' \<noteq> Str ''0''"
  shows "input_values (fst (s_change update st)) ''n'' = map Num [0, 1, 2, 7]"
    and "value_vars (fst (s_change update st)) ''n'' =
           (if value_vars st ''n'' \<in> set (map Num [0, 1, 2, 7]) then value_vars st ''n'' else Num 0)"
    and "value_vars (fst (s_change update st)) ''s'' = value_vars st ''s''"
    and "gridded (fst (s_change update st)) ''m_w'' = (\<lambda>p. True)"
    and "gridded (fst (s_change update st)) ''v_w'' = (\<lambda>p. True)"
  using assms
  by (auto simp: s_change_def Let_def get_value_def fun_eq_iff intro: part.exhaust)

lemma s_change_zero:
  assumes "value_vars st ''s'' = Str ''0''"
  shows "input_values (fst (s_change update st)) ''n'' = map Num [0, 2, 4, 6, 7, 8, 9, 10, 12, 14]"
    and "value_vars (fst (s_change update st)) ''n'' =
           (if value_vars st ''n'' = Num 1 then Num 0 else value_vars st ''n'')"
    and "value_vars (fst (s_change update st)) ''s'' = value_vars st ''s''"
    and "gridded (fst (s_change update st)) ''m_w'' = (\<lambda>p. False)"
    and "gridded (fst (s_change update st)) ''v_w'' = (\<lambda>p. False)"
  using assms
  by (auto simp: s_change_def Let_def get_value_def fun_eq_iff intro: part.exhaust)


lemma s_change_gridded:
  "gridded (fst (s_change update st)) =
     (gridded st)(''m_w'' := (\<lambda>p. value_vars st ''s'' \<noteq> Str ''0''),
                  ''v_w'' := (\<lambda>p. value_vars st ''s'' \<noteq> Str ''0''))"
  by (auto simp: s_change_def Let_def get_value_def fun_eq_iff intro: part.exhaust)

lemma s_change_settles:
  "value_vars st ''s'' = Str ''0'' \<Longrightarrow> zero_settled (fst (s_change update st))"
  by (simp add: zero_settled_def s_change_zero get_value_def)

text \<open>
  Claim C5. When \<^verbatim>\<open>s_change\<close> runs with an index \<open>s\<close> other than \<^verbatim>\<open>'0'\<close>, the values
  offered for the ejecta index \<open>n\<close> become 0, 1, 2 and 7; an index among them stays, any
  other is set to 0, the least of them. The one recomputation that may be requested is
  requested last and finds the state with the index already set.
\<close>

theorem nonzero_contracts_index_domain:
  assumes "value_vars st ''s'' \<noteq> Str ''0''"
  shows "let st' = fst (s_change update st)
         in input_values st' ''n'' = map Num [0, 1, 2, 7]
          \<and> (get_value st ''n'' \<in> set (map Num [0, 1, 2, 7]) \<longrightarrow>
                get_value st' ''n'' = get_value st ''n'')
          \<and> (get_value st ''n'' \<notin> set (map Num [0, 1, 2, 7]) \<longrightarrow>
                get_value st' ''n'' = Num (Min {0, 1, 2, 7}))
          \<and> get_value st' ''n'' \<in> set (input_values st' ''n'')
          \<and> snd (s_change update st) = (if update then [Update_output st'] else [])"
proof -
  have m: "Min {0, 1, 2, 7 :: real} = 0" by simp
  show ?thesis
    unfolding Let_def m get_value_def
    by (simp add: s_change_nonzero [OF assms] s_change_effects)
qed

text \<open>With \<open>n = 4\<close> and \<open>s\<close> changed to 2, the index is 0 when the recomputation starts.\<close>

theorem nonzero_contracts_index_domain_witness:
  "get_value (value_var_set ''s'' (Str ''2'') (value_var_set ''n'' (Num 4) (start_gui 1 1))) ''n'' = Num 4
   \<and> get_value (fst (s_change True
        (value_var_set ''s'' (Str ''2'') (value_var_set ''n'' (Num 4) (start_gui 1 1))))) ''n'' = Num 0
   \<and> input_values (fst (s_change True
        (value_var_set ''s'' (Str ''2'') (value_var_set ''n'' (Num 4) (start_gui 1 1))))) ''n''
       = [Num 0, Num 1, Num 2, Num 7]
   \<and> snd (s_change True (value_var_set ''s'' (Str ''2'') (value_var_set ''n'' (Num 4) (start_gui 1 1))))
       = [Update_output (fst (s_change True
            (value_var_set ''s'' (Str ''2'') (value_var_set ''n'' (Num 4) (start_gui 1 1)))))]"
proof -
  have h: "value_vars (value_var_set ''s'' (Str ''2'') (value_var_set ''n'' (Num 4) (start_gui 1 1))) ''s''
      \<noteq> Str ''0''"
    by simp
  have v: "get_value (value_var_set ''s'' (Str ''2'') (value_var_set ''n'' (Num 4) (start_gui 1 1))) ''n''
      = Num 4"
    by (simp add: get_value_def)
  from nonzero_contracts_index_domain [OF h, of True] show ?thesis
    unfolding Let_def v by simp
qed

text \<open>
  Claim C6. From a state in which \<open>s\<close> reads \<^verbatim>\<open>'0'\<close>, changing \<open>s\<close> to another value and
  back to \<^verbatim>\<open>'0'\<close> puts the wind parameters on the grid and takes them off again, so
  that the grid is as before; an index \<open>n\<close> among 0, 1, 2 and 7 is the same after the
  round trip, any other index is 0 after the first change and stays 0. The states in
  which \<open>s\<close> reads \<^verbatim>\<open>'0'\<close> are settled in this sense (\<open>reachable_zero_settled\<close>). The recomputation
  requested in between is a call to the physics; it is taken not to write to the widgets.
\<close>

theorem zero_nonzero_zero_round_trip:
  assumes "zero_settled st" and "v \<noteq> Str ''0''"
  shows "let st1 = fst (s_change u1 (value_var_set ''s'' v st));
             st2 = fst (s_change u2 (value_var_set ''s'' (Str ''0'') st1))
         in gridded st1 ''m_w'' = (\<lambda>p. True) \<and> gridded st1 ''v_w'' = (\<lambda>p. True)
          \<and> gridded st2 = gridded st
          \<and> (get_value st ''n'' \<in> set (map Num [0, 1, 2, 7]) \<longrightarrow>
                get_value st1 ''n'' = get_value st ''n'' \<and> get_value st2 ''n'' = get_value st ''n'')
          \<and> (get_value st ''n'' \<notin> set (map Num [0, 1, 2, 7]) \<longrightarrow>
                get_value st1 ''n'' = Num 0 \<and> get_value st2 ''n'' = Num 0)
          \<and> zero_settled st2"
proof -
  define st1 where "st1 = fst (s_change u1 (value_var_set ''s'' v st))"
  define st2 where "st2 = fst (s_change u2 (value_var_set ''s'' (Str ''0'') st1))"
  have s1: "value_vars (value_var_set ''s'' v st) ''s'' \<noteq> Str ''0''" using assms(2) by simp
  have s2: "value_vars (value_var_set ''s'' (Str ''0'') st1) ''s'' = Str ''0''" by simp
  note n1 = s_change_nonzero [OF s1, of u1, folded st1_def]
  note n2 = s_change_zero [OF s2, of u2, folded st2_def]
  have g1: "gridded st1 = (gridded st)(''m_w'' := (\<lambda>p. True), ''v_w'' := (\<lambda>p. True))"
    unfolding st1_def s_change_gridded using assms(2) by simp
  have g2: "gridded st2 = (gridded st1)(''m_w'' := (\<lambda>p. False), ''v_w'' := (\<lambda>p. False))"
    unfolding st2_def s_change_gridded by simp
  from assms(1) have z: "gridded st ''m_w'' = (\<lambda>p. False)" "gridded st ''v_w'' = (\<lambda>p. False)"
    "get_value st ''n'' \<noteq> Num 1"
    by (simp_all add: zero_settled_def)
  have g: "gridded st2 = gridded st"
    unfolding g2 g1 using z by (auto simp: fun_eq_iff)
  have v1: "get_value st1 ''n'' =
      (if get_value st ''n'' \<in> set (map Num [0, 1, 2, 7]) then get_value st ''n'' else Num 0)"
    using n1(2) by (simp add: get_value_def)
  have v2: "get_value st2 ''n'' = (if get_value st1 ''n'' = Num 1 then Num 0 else get_value st1 ''n'')"
    using n2(2) by (simp add: get_value_def)
  have settled: "zero_settled st2"
    unfolding st2_def by (rule s_change_settles) simp
  from n1(4,5) g v1 v2 z(3) settled show ?thesis
    unfolding Let_def st1_def [symmetric] st2_def [symmetric] by auto
qed


lemma s_change_model_commute:
  "value_vars (fst (model_change update st)) ''s'' = value_vars st ''s''"
  by (simp add: model_change_def Let_def get_value_def)

text \<open>The round trip in the ready program, with the index 4 and with the index 2.\<close>

theorem zero_nonzero_zero_round_trip_witness:
  "zero_settled (value_var_set ''n'' (Num 4) (ready_gui 1 1))
   \<and> get_value (select_s (Str ''2'') (value_var_set ''n'' (Num 4) (ready_gui 1 1))) ''n'' = Num 0
   \<and> get_value (select_s (Str ''0'') (select_s (Str ''2'')
        (value_var_set ''n'' (Num 4) (ready_gui 1 1)))) ''n'' = Num 0
   \<and> gridded (select_s (Str ''0'') (select_s (Str ''2'') (value_var_set ''n'' (Num 4) (ready_gui 1 1))))
       = gridded (value_var_set ''n'' (Num 4) (ready_gui 1 1))
   \<and> zero_settled (value_var_set ''n'' (Num 2) (ready_gui 1 1))
   \<and> get_value (select_s (Str ''0'') (select_s (Str ''2'')
        (value_var_set ''n'' (Num 2) (ready_gui 1 1)))) ''n'' = Num 2"
proof -
  have s0: "value_vars (fst (model_change False (start_gui 1 1))) ''s'' = Str ''0''"
    by (simp add: s_change_model_commute start_gui_def start_vars_def)
  have "zero_settled (ready_gui 1 1)"
    unfolding ready_gui_def by (rule s_change_settles [OF s0])
  then have z: "zero_settled (value_var_set ''n'' (Num 4) (ready_gui 1 1))"
    "zero_settled (value_var_set ''n'' (Num 2) (ready_gui 1 1))"
    by (simp_all add: zero_settled_def get_value_def)
  have h: "Str ''2'' \<noteq> Str ''0''" by simp
  have n: "get_value (value_var_set ''n'' x (ready_gui 1 1)) ''n'' = x" for x
    by (simp add: get_value_def)
  from zero_nonzero_zero_round_trip [OF z(1) h, of True True]
    zero_nonzero_zero_round_trip [OF z(2) h, of True True] z
  show ?thesis
    unfolding Let_def n select_s_def by simp
qed

subsection \<open>The model type\<close>

lemma model_change_model:
  "value_vars (fst (model_change update st)) ''model'' = value_vars st ''model''"
  "previous_vals (fst (model_change update st)) = previous_vals st"
  by (simp_all add: model_change_def Let_def get_value_def)

lemma model_change_away:
  assumes "value_vars st ''model'' \<noteq> Str ''tw''"
  shows "input_state (fst (model_change update st)) ''t_tw'' = ''disabled''"
    and "value_vars (fst (model_change update st)) ''t_tw'' = Str ''N/A''"
    and "gridded (fst (model_change update st)) ''t_tw'' = (\<lambda>p. False)"
  using assms
  by (auto simp: model_change_def Let_def get_value_def fun_eq_iff intro: part.exhaust)

lemma model_change_tw:
  assumes "value_vars st ''model'' = Str ''tw''"
  shows "input_state (fst (model_change update st)) ''t_tw'' = ''normal''"
    and "value_vars (fst (model_change update st)) ''t_tw'' = previous_vals st ''t_tw''"
    and "gridded (fst (model_change update st)) ''t_tw'' = (\<lambda>p. True)"
  using assms
  by (auto simp: model_change_def Let_def get_value_def fun_eq_iff intro: part.exhaust)

text \<open>
  Claim C9. When \<^verbatim>\<open>model_change\<close> runs with a model other than \<^verbatim>\<open>tw\<close>, the end time
  entry is disabled, taken off the grid, and reads \<^verbatim>\<open>N/A\<close>. When the model is \<^verbatim>\<open>tw\<close>
  again the entry is enabled, back on the grid, and shows its last valid value, which
  is the value it showed before when that value was valid.
\<close>

theorem end_time_hidden_and_reverted:
  assumes "m \<noteq> Str ''tw''"
  shows "let st1 = fst (model_change u1 (value_var_set ''model'' m st));
             st2 = fst (model_change u2 (value_var_set ''model'' (Str ''tw'') st1))
         in input_state st1 ''t_tw'' = ''disabled''
          \<and> get_value st1 ''t_tw'' = Str ''N/A''
          \<and> gridded st1 ''t_tw'' = (\<lambda>p. False)
          \<and> input_state st2 ''t_tw'' = ''normal''
          \<and> gridded st2 ''t_tw'' = (\<lambda>p. True)
          \<and> get_value st2 ''t_tw'' = previous_vals st ''t_tw''
          \<and> (get_value st ''t_tw'' = previous_vals st ''t_tw'' \<longrightarrow>
                get_value st2 ''t_tw'' = get_value st ''t_tw'')"
proof -
  define st1 where "st1 = fst (model_change u1 (value_var_set ''model'' m st))"
  have a: "value_vars (value_var_set ''model'' m st) ''model'' \<noteq> Str ''tw''" using assms by simp
  have b: "value_vars (value_var_set ''model'' (Str ''tw'') st1) ''model'' = Str ''tw''" by simp
  have p: "previous_vals st1 = previous_vals st"
    by (simp add: st1_def model_change_model)
  show ?thesis
    unfolding Let_def st1_def [symmetric] get_value_def
    using model_change_away [OF a, of u1, folded st1_def] model_change_tw [OF b, of u2] p
    by simp
qed

text \<open>
  With the end time 1e6 entered, the change to the standard model and back shows 1e6
  again, not the default 4e5 of line 515.
\<close>

theorem end_time_hidden_and_reverted_witness:
  "get_value (valid_entry ''t_tw'' (Str ''1e6'') (ready_gui 1 1)) ''t_tw'' = Str ''1e6''
   \<and> get_value (select_model (Str ''cf'') (valid_entry ''t_tw'' (Str ''1e6'') (ready_gui 1 1))) ''t_tw''
       = Str ''N/A''
   \<and> input_state (select_model (Str ''cf'') (valid_entry ''t_tw'' (Str ''1e6'') (ready_gui 1 1))) ''t_tw''
       = ''disabled''
   \<and> get_value (select_model (Str ''tw'') (select_model (Str ''cf'')
        (valid_entry ''t_tw'' (Str ''1e6'') (ready_gui 1 1)))) ''t_tw'' = Str ''1e6''
   \<and> input_state (select_model (Str ''tw'') (select_model (Str ''cf'')
        (valid_entry ''t_tw'' (Str ''1e6'') (ready_gui 1 1)))) ''t_tw'' = ''normal''"
proof -
  have h: "Str ''cf'' \<noteq> Str ''tw''" by simp
  have v: "get_value (valid_entry ''t_tw'' (Str ''1e6'') (ready_gui 1 1)) ''t_tw'' = Str ''1e6''"
    "previous_vals (valid_entry ''t_tw'' (Str ''1e6'') (ready_gui 1 1)) ''t_tw'' = Str ''1e6''"
    by (simp_all add: valid_entry_def get_value_def)
  from end_time_hidden_and_reverted [OF h, of True "valid_entry ''t_tw'' (Str ''1e6'') (ready_gui 1 1)" True]
  show ?thesis
    unfolding Let_def v select_model_def by simp
qed


subsection \<open>The abundance windows: opening\<close>

lemma window_part_frames [simp]:
  "window_part (grid w p st) = window_part st"
  "window_part (grid_remove w p st) = window_part st"
  "window_part (config_state w s st) = window_part st"
  "window_part (config_model_input w s st) = window_part st"
  "window_part (config_values w vs st) = window_part st"
  "window_part (value_var_set w v st) = window_part st"
  "window_part (revert_value w st) = window_part st"
  "window_part (force_custom st) = window_part st"
  "window_part (config_increment a i st) = window_part st"
  "window_part (set_value_var a i st) = window_part st"
  "window_part (store_limit a i st) = window_part st"
  by (simp_all add: window_part_def grid_def grid_remove_def config_state_def
      config_model_input_def config_values_def value_var_set_def revert_value_def
      force_custom_def config_increment_def set_value_var_def store_limit_def)

lemma window_part_s_change [simp]: "window_part (fst (s_change u st)) = window_part st"
  by (simp add: s_change_def Let_def)

lemma window_part_model_change [simp]: "window_part (fst (model_change u st)) = window_part st"
  by (simp add: model_change_def Let_def)

lemma window_part_shown_state [simp]: "window_part (shown_state a d st) = window_part st"
  by (simp add: shown_state_def Let_def split: option.splits)

lemma window_part_increment_xlimits [simp]:
  "window_part (fst (increment_xlimits a d st)) = window_part st"
  by (cases "d = 0") (simp_all add: increment_xlimits_typed increment_xlimits_accepted)

lemma window_part_select_range [simp]: "window_part (select_range v st) = window_part st"
  by (simp add: select_range_def limit_change_def Let_def window_part_def)

lemma windows_consistent_cong:
  "window_part st' = window_part st \<Longrightarrow> windows_consistent st' = windows_consistent st"
  by (simp add: window_part_def windows_consistent_def)

lemma live_windows_cong:
  "window_part st' = window_part st \<Longrightarrow> live_windows st' = live_windows st"
  by (simp add: window_part_def live_windows_def fun_eq_iff)

lemma abundance_window_existing:
  "ab_window_open st k = Some w \<Longrightarrow> abundance_window fmt d k st = (st, [Focus w])"
  by (simp add: abundance_window_def)

lemma abundance_window_new:
  assumes "ab_window_open st k = None"
  shows "next_window (fst (abundance_window fmt d k st)) = Suc (next_window st)"
    and "toplevels (fst (abundance_window fmt d k st)) = (toplevels st)(next_window st \<mapsto> k)"
    and "ab_window_open (fst (abundance_window fmt d k st)) = (ab_window_open st)(k := Some (next_window st))"
    and "w \<noteq> next_window st \<Longrightarrow>
           close_bound (fst (abundance_window fmt d k st)) w = close_bound st w"
    and "w \<noteq> next_window st \<Longrightarrow>
           instances (fst (abundance_window fmt d k st)) w = instances st w"
    and "close_bound (fst (abundance_window fmt d k st)) (next_window st) = Some (d', k') \<Longrightarrow>
           close_bound st (next_window st) = Some (d', k')
           \<or> (d' = d \<and> k' = k \<and> (\<exists>m t. instances (fst (abundance_window fmt d k st)) (next_window st) = Some m
                 \<and> m ''ab_type'' = Some t))"
  using assms
  by (auto simp: abundance_window_def Let_def split: prod.splits option.splits)

lemma abundance_window_consistent:
  assumes "windows_consistent st"
  shows "windows_consistent (fst (abundance_window fmt d k st))"
proof (cases "ab_window_open st k")
  case (Some w)
  then show ?thesis using assms by (simp add: abundance_window_existing)
next
  case None
  note n = abundance_window_new [OF None, where fmt = fmt and d = d]
  from assms have i1: "\<And>w k. toplevels st w = Some k \<Longrightarrow> ab_window_open st k = Some w"
    and i2: "\<And>w d k. close_bound st w = Some (d, k) \<Longrightarrow>
           toplevels st w = Some k \<and> (\<exists>m t. instances st w = Some m \<and> m ''ab_type'' = Some t)"
    and i3: "\<And>w. next_window st \<le> w \<Longrightarrow> toplevels st w = None \<and> close_bound st w = None"
    unfolding windows_consistent_def by blast+
  show ?thesis
    unfolding windows_consistent_def
  proof (intro conjI allI impI)
    fix w k'
    assume "toplevels (fst (abundance_window fmt d k st)) w = Some k'"
    then show "ab_window_open (fst (abundance_window fmt d k st)) k' = Some w"
      using i1 [of w k'] None by (auto simp: n(2,3) split: if_splits)
  next
    fix w d' k'
    assume cb: "close_bound (fst (abundance_window fmt d k st)) w = Some (d', k')"
    show "toplevels (fst (abundance_window fmt d k st)) w = Some k'"
    proof (cases "w = next_window st")
      case True
      with n(6) [of d' k'] cb i3 [of "next_window st"] show ?thesis by (auto simp: n(2))
    next
      case False
      with cb n(4) [OF False] i2 [of w d' k'] show ?thesis by (simp add: n(2))
    qed
    show "\<exists>m t. instances (fst (abundance_window fmt d k st)) w = Some m \<and> m ''ab_type'' = Some t"
    proof (cases "w = next_window st")
      case True
      with n(6) [of d' k'] cb i3 [of "next_window st"] show ?thesis by auto
    next
      case False
      with cb n(4) [OF False] n(5) [OF False] i2 [of w d' k'] show ?thesis by simp
    qed
  next
    fix w assume "next_window (fst (abundance_window fmt d k st)) \<le> w"
    then have le: "next_window st \<le> w" and ne: "w \<noteq> next_window st" by (simp_all add: n(1))
    from i3 [OF le] show "toplevels (fst (abundance_window fmt d k st)) w = None"
      using ne by (simp add: n(2))
    from i3 [OF le] show "close_bound (fst (abundance_window fmt d k st)) w = None"
      using n(4) [OF ne] by simp
  qed
qed


subsection \<open>The abundance windows: closing\<close>

lemma validate_input_frames [simp]:
  "toplevels (validate_input validate w i st) = toplevels st"
  "ab_window_open (validate_input validate w i st) = ab_window_open st"
  "close_bound (validate_input validate w i st) = close_bound st"
  "next_window (validate_input validate w i st) = next_window st"
  "data_dicts (validate_input validate w i st) = data_dicts st"
  "ism_ab_type (validate_input validate w i st) = ism_ab_type st"
  "ej_ab_type (validate_input validate w i st) = ej_ab_type st"
  by (simp_all add: validate_input_def split: option.splits)

lemma validate_input_other:
  "w' \<noteq> w \<Longrightarrow> instances (validate_input validate w i st) w' = instances st w'"
  by (simp add: validate_input_def split: option.splits)

lemma validate_input_keeps:
  assumes "instances st w = Some m" "m key = Some t"
  shows "\<exists>m' t'. instances (validate_input validate w i st) w = Some m' \<and> m' key = Some t'"
  using assms by (auto simp: validate_input_def split: option.splits)

lemma validated_frames [simp]:
  "toplevels (validated validate w p st) = toplevels st"
  "ab_window_open (validated validate w p st) = ab_window_open st"
  "close_bound (validated validate w p st) = close_bound st"
  "next_window (validated validate w p st) = next_window st"
  "data_dicts (validated validate w p st) = data_dicts st"
  "ism_ab_type (validated validate w p st) = ism_ab_type st"
  "ej_ab_type (validated validate w p st) = ej_ab_type st"
  by (simp_all add: validated_def split: option.splits tk_event.splits)

lemma validated_other:
  "w' \<noteq> w \<Longrightarrow> instances (validated validate w p st) w' = instances st w'"
  by (simp add: validated_def validate_input_other split: option.splits tk_event.splits)

lemma validated_keeps:
  assumes "instances st w = Some m" "m key = Some t"
  shows "\<exists>m' t'. instances (validated validate w p st) w = Some m' \<and> m' key = Some t'"
  using assms validate_input_keeps [OF assms]
  by (auto simp: validated_def split: option.splits tk_event.splits)

lemma validated_no_event:
  "close_event p = None \<Longrightarrow> validated validate w p st = st"
  by (simp add: validated_def)

lemma commit_and_destroy_ok:
  assumes "instances st w = Some m" "m ''ab_type'' = Some t"
  shows "fst (commit_and_destroy w d k st) =
           st\<lparr>ab_window_open := (ab_window_open st)(k := None),
              data_dicts := (data_dicts st)(d := (data_dicts st d ++ m)(''ab_type'' := None)),
              ism_ab_type := (if k = ISM then t else ism_ab_type st),
              ej_ab_type := (if k = ISM then ej_ab_type st else t),
              toplevels := (toplevels st)(w := None),
              close_bound := (close_bound st)(w := None)\<rparr>"
    and "snd (commit_and_destroy w d k st) =
           [Destroy w, Update_output (fst (commit_and_destroy w d k st))]"
  using assms
  by (simp_all add: commit_and_destroy_def get_values_def destroy_def Let_def)

lemma close_window_unfold:
  assumes "close_bound st w = Some (d, k)"
  shows "fst (close_window validate w p st) = fst (commit_and_destroy w d k (validated validate w p st))"
    and "snd (close_window validate w p st) =
           (case close_event p of Some (Event (Some i)) \<Rightarrow> [Validate i] | _ \<Rightarrow> [])
           @ snd (commit_and_destroy w d k (validated validate w p st))"
  using assms
  by (simp_all add: close_window_def ab_window_close_def validated_def Let_def
      split: option.splits tk_event.splits)


lemma close_window_consistent:
  assumes "windows_consistent st"
  shows "windows_consistent (fst (close_window validate w p st))"
proof (cases "close_bound st w")
  case None
  then show ?thesis using assms by (simp add: close_window_def)
next
  case (Some dk)
  obtain d k where dk: "dk = (d, k)" by (cases dk)
  from assms have i1: "\<And>w k. toplevels st w = Some k \<Longrightarrow> ab_window_open st k = Some w"
    and i2: "\<And>w d k. close_bound st w = Some (d, k) \<Longrightarrow>
           toplevels st w = Some k \<and> (\<exists>m t. instances st w = Some m \<and> m ''ab_type'' = Some t)"
    and i3: "\<And>w. next_window st \<le> w \<Longrightarrow> toplevels st w = None \<and> close_bound st w = None"
    unfolding windows_consistent_def by blast+
  from Some dk have cb: "close_bound st w = Some (d, k)" by simp
  from i2 [OF cb] obtain m t where tl: "toplevels st w = Some k"
    and m: "instances st w = Some m" "m ''ab_type'' = Some t" by blast
  from validated_keeps [OF m, of validate p] obtain m' t'
    where m': "instances (validated validate w p st) w = Some m'" "m' ''ab_type'' = Some t'" by blast
  define st' where "st' = fst (close_window validate w p st)"
  have eq: "st' = fst (commit_and_destroy w d k (validated validate w p st))"
    unfolding st'_def by (rule close_window_unfold(1) [OF cb])
  have f: "toplevels st' = (toplevels st)(w := None)"
    "ab_window_open st' = (ab_window_open st)(k := None)"
    "close_bound st' = (close_bound st)(w := None)"
    "next_window st' = next_window st"
    "instances st' = instances (validated validate w p st)"
    unfolding eq commit_and_destroy_ok(1) [OF m'] by simp_all
  have "windows_consistent st'"
    unfolding windows_consistent_def
  proof (intro conjI allI impI)
    fix w' k'
    assume a: "toplevels st' w' = Some k'"
    then have ne: "w' \<noteq> w" and t: "toplevels st w' = Some k'" by (auto simp: f split: if_splits)
    from i1 [OF t] i1 [OF tl] ne have "k' \<noteq> k" by auto
    with i1 [OF t] show "ab_window_open st' k' = Some w'" by (simp add: f)
  next
    fix w' d' k'
    assume a: "close_bound st' w' = Some (d', k')"
    then have ne: "w' \<noteq> w" and c: "close_bound st w' = Some (d', k')" by (auto simp: f split: if_splits)
    from i2 [OF c] ne show "toplevels st' w' = Some k'" by (simp add: f)
    from i2 [OF c] ne
    show "\<exists>m t. instances st' w' = Some m \<and> m ''ab_type'' = Some t"
      by (simp add: f validated_other)
  next
    fix w' assume "next_window st' \<le> w'"
    then have "next_window st \<le> w'" by (simp add: f)
    from i3 [OF this] show "toplevels st' w' = None" "close_bound st' w' = None"
      by (simp_all add: f)
  qed
  then show ?thesis unfolding st'_def .
qed

lemma edit_input_consistent:
  assumes "windows_consistent st"
  shows "windows_consistent (step fmt validate st (Edit_input w ident v))"
proof (cases "\<exists>m. instances st w = Some m \<and> toplevels st w \<noteq> None \<and> m ident \<noteq> None")
  case False
  then have "step fmt validate st (Edit_input w ident v) = st"
    by (auto split: option.splits)
  with assms show ?thesis by simp
next
  case True
  then obtain m where m: "instances st w = Some m" "toplevels st w \<noteq> None" "m ident \<noteq> None"
    by blast
  then have eq: "step fmt validate st (Edit_input w ident v)
      = st\<lparr>instances := (instances st)(w \<mapsto> m(ident \<mapsto> v))\<rparr>"
    by simp
  from assms have i2: "\<And>w d k. close_bound st w = Some (d, k) \<Longrightarrow>
           toplevels st w = Some k \<and> (\<exists>m t. instances st w = Some m \<and> m ''ab_type'' = Some t)"
    unfolding windows_consistent_def by blast
  have "\<exists>m' t. ((instances st)(w \<mapsto> m(ident \<mapsto> v))) w' = Some m' \<and> m' ''ab_type'' = Some t"
    if "close_bound st w' = Some (d, k)" for w' d k
  proof (cases "w' = w")
    case True
    from i2 [OF that] m(1) True obtain t where "m ''ab_type'' = Some t" by auto
    then show ?thesis using True by (cases "ident = ''ab_type''") simp_all
  next
    case False
    with i2 [OF that] show ?thesis by simp
  qed
  with assms show ?thesis
    unfolding eq windows_consistent_def by (simp del: fun_upd_apply)
qed

lemma consistent_frame:
  "windows_consistent st \<Longrightarrow> window_part st' = window_part st \<Longrightarrow> windows_consistent st'"
  by (simp add: window_part_def windows_consistent_def)

lemma step_consistent:
  assumes "windows_consistent st"
  shows "windows_consistent (step fmt validate st a)"
proof (cases a)
  case (Press_button k)
  then show ?thesis using assms by (simp add: abundance_window_consistent)
next
  case (Close_window w p)
  then show ?thesis using assms by (simp add: close_window_consistent)
next
  case (Edit_input w ident v)
  then show ?thesis using edit_input_consistent [OF assms] by simp
next
  case (Select_s v)
  show ?thesis unfolding Select_s by (rule consistent_frame [OF assms]) (simp add: select_s_def)
next
  case (Select_n v)
  show ?thesis unfolding Select_n by (rule consistent_frame [OF assms]) simp
next
  case (Select_model m)
  show ?thesis unfolding Select_model by (rule consistent_frame [OF assms]) (simp add: select_model_def)
next
  case (Select_range v)
  show ?thesis unfolding Select_range by (rule consistent_frame [OF assms]) simp
next
  case (Type_limit a v)
  show ?thesis unfolding Type_limit by (rule consistent_frame [OF assms]) simp
next
  case (Arrow a d)
  show ?thesis unfolding Arrow by (rule consistent_frame [OF assms]) simp
next
  case (Enter a)
  show ?thesis unfolding Enter by (rule consistent_frame [OF assms]) simp
qed

lemma run_consistent:
  "windows_consistent st \<Longrightarrow> windows_consistent (run fmt validate st acts)"
  unfolding run_def
  by (induction acts arbitrary: st) (simp_all add: step_consistent)

lemma start_consistent: "windows_consistent (start_gui t_c t_pds)"
  by (simp add: windows_consistent_def start_gui_def)

lemma ready_consistent: "windows_consistent (ready_gui t_c t_pds)"
  unfolding ready_gui_def by (rule consistent_frame [OF start_consistent]) simp

lemma live_windows_slot:
  assumes "windows_consistent st"
  shows "live_windows st k \<subseteq> (case ab_window_open st k of None \<Rightarrow> {} | Some w \<Rightarrow> {w})"
  using assms by (auto simp: windows_consistent_def live_windows_def split: option.splits)

lemma live_windows_card:
  assumes "windows_consistent st"
  shows "finite (live_windows st k) \<and> card (live_windows st k) \<le> 1"
proof -
  let ?S = "case ab_window_open st k of None \<Rightarrow> {} | Some w \<Rightarrow> {w}"
  have fin: "finite ?S" and c: "card ?S \<le> 1" by (simp_all split: option.splits)
  from live_windows_slot [OF assms] have sub: "live_windows st k \<subseteq> ?S" .
  from finite_subset [OF sub fin] card_mono [OF fin sub] c show ?thesis by simp
qed

text \<open>
  Claim C7. Whatever the user does from the start of the program on, at most one
  abundance window of each kind is alive. When a window of the kind is registered, the
  button makes no window and changes nothing: its only call gives the focus to the
  window registered.
\<close>

theorem one_live_window_per_kind:
  "finite (live_windows (run fmt validate (ready_gui t_c t_pds) acts) k)
   \<and> card (live_windows (run fmt validate (ready_gui t_c t_pds) acts) k) \<le> 1
   \<and> (ab_window_open st k = Some w \<longrightarrow>
        abundance_window fmt d k st = (st, [Focus w])
        \<and> step fmt validate st (Press_button k) = st)"
proof -
  have "windows_consistent (run fmt validate (ready_gui t_c t_pds) acts)"
    by (rule run_consistent [OF ready_consistent])
  from live_windows_card [OF this, of k] show ?thesis
    by (simp add: abundance_window_existing)
qed


lemma ready_window_part: "window_part (ready_gui t_c t_pds) = window_part (start_gui t_c t_pds)"
  by (simp add: ready_gui_def)

lemma ready_windows:
  "ab_window_open (ready_gui t_c t_pds) k = None"
  "next_window (ready_gui t_c t_pds) = 0"
  using ready_window_part [of t_c t_pds]
  by (simp_all add: window_part_def start_gui_def)

text \<open>
  The button for the interstellar medium pressed twice: the second press gives the
  focus to window 0 and leaves the state as the first press left it.
\<close>

theorem one_live_window_per_kind_witness:
  "ab_window_open (step (\<lambda>x. x) (\<lambda>i v. v) (ready_gui 1 1) (Press_button ISM)) ISM = Some 0
   \<and> abundance_window (\<lambda>x. x) Abundance ISM (step (\<lambda>x. x) (\<lambda>i v. v) (ready_gui 1 1) (Press_button ISM))
       = (step (\<lambda>x. x) (\<lambda>i v. v) (ready_gui 1 1) (Press_button ISM), [Focus 0])
   \<and> run (\<lambda>x. x) (\<lambda>i v. v) (ready_gui 1 1) [Press_button ISM, Press_button ISM]
       = run (\<lambda>x. x) (\<lambda>i v. v) (ready_gui 1 1) [Press_button ISM]
   \<and> card (live_windows (run (\<lambda>x. x) (\<lambda>i v. v) (ready_gui 1 1) [Press_button ISM, Press_button ISM]) ISM)
       \<le> 1"
proof -
  have o: "ab_window_open (step (\<lambda>x. x) (\<lambda>i v. v) (ready_gui 1 1) (Press_button ISM)) ISM = Some 0"
    by (simp add: abundance_window_new(3) ready_windows)
  note T = one_live_window_per_kind [of "\<lambda>x. x" "\<lambda>i v. v" 1 1 "[Press_button ISM, Press_button ISM]" ISM
      "step (\<lambda>x. x) (\<lambda>i v. v) (ready_gui 1 1) (Press_button ISM)" 0 Abundance]
  from T have c: "card (live_windows
      (run (\<lambda>x. x) (\<lambda>i v. v) (ready_gui 1 1) [Press_button ISM, Press_button ISM]) ISM) \<le> 1"
    by blast
  from T o have a: "abundance_window (\<lambda>x. x) Abundance ISM
        (step (\<lambda>x. x) (\<lambda>i v. v) (ready_gui 1 1) (Press_button ISM))
       = (step (\<lambda>x. x) (\<lambda>i v. v) (ready_gui 1 1) (Press_button ISM), [Focus 0])"
    and b: "step (\<lambda>x. x) (\<lambda>i v. v) (step (\<lambda>x. x) (\<lambda>i v. v) (ready_gui 1 1) (Press_button ISM))
        (Press_button ISM) = step (\<lambda>x. x) (\<lambda>i v. v) (ready_gui 1 1) (Press_button ISM)"
    by blast+
  have r: "run (\<lambda>x. x) (\<lambda>i v. v) (ready_gui 1 1) [Press_button ISM, Press_button ISM]
       = run (\<lambda>x. x) (\<lambda>i v. v) (ready_gui 1 1) [Press_button ISM]"
    unfolding run_def foldl.simps b ..
  from o a r c show ?thesis by blast
qed

lemma abundance_window_default:
  assumes "ab_window_open st k = None"
    and "snd (make_entries fmt (data_dicts st d) ELEMENT_ORDER Map.empty) = None"
  shows "\<exists>m. instances (fst (abundance_window fmt d k st)) (next_window st) = Some m
           \<and> m ''ab_type'' = Some (if k = ISM then ism_ab_type st else ej_ab_type st)"
  using assms by (auto simp: abundance_window_def Let_def split: prod.splits option.splits)

text \<open>
  Claim C8. The button \<^verbatim>\<open>Submit\<close>, the key Return and the request of the window manager
  all end in the same commit: the values of the window, as they stand after the
  validation that Return may cause, are written over the dictionary the window was
  opened for, without the preset; the preset is kept as the type of the kind and is
  what the next window of the kind shows; the slot of the kind is free, the window is
  gone, and the output is recomputed last.
\<close>

theorem every_close_commits:
  assumes "windows_consistent st"
    and "close_bound st w = Some (ab_dict, ab_type)"
  shows "let vals = get_values (validated validate w p st) w;
             st' = fst (close_window validate w p st)
         in (\<exists>t. vals ''ab_type'' = Some t
               \<and> (if ab_type = ISM then ism_ab_type st' = t \<and> ej_ab_type st' = ej_ab_type st
                   else ej_ab_type st' = t \<and> ism_ab_type st' = ism_ab_type st)
               \<and> (snd (make_entries fmt (data_dicts st' d) ELEMENT_ORDER Map.empty) = None \<longrightarrow>
                    (\<exists>m. instances (fst (abundance_window fmt d ab_type st')) (next_window st') = Some m
                        \<and> m ''ab_type'' = Some t)))
          \<and> data_dicts st' ab_dict = (data_dicts st ab_dict ++ vals)(''ab_type'' := None)
          \<and> ab_window_open st' ab_type = None
          \<and> toplevels st' w = None
          \<and> close_bound st' w = None
          \<and> snd (close_window validate w p st)
              = (case close_event p of Some (Event (Some i)) \<Rightarrow> [Validate i] | _ \<Rightarrow> [])
                @ [Destroy w, Update_output st']
          \<and> (close_event p = None \<longrightarrow> vals = get_values st w)"
proof -
  from assms obtain m0 t0 where m0: "instances st w = Some m0" "m0 ''ab_type'' = Some t0"
    unfolding windows_consistent_def by blast
  from validated_keeps [OF m0, of validate p] obtain m t
    where m: "instances (validated validate w p st) w = Some m" "m ''ab_type'' = Some t" by blast
  define st' where "st' = fst (close_window validate w p st)"
  have eq: "st' = fst (commit_and_destroy w ab_dict ab_type (validated validate w p st))"
    unfolding st'_def by (rule close_window_unfold(1) [OF assms(2)])
  have vals: "get_values (validated validate w p st) w = m" by (simp add: get_values_def m)
  have f: "ab_window_open st' = (ab_window_open st)(ab_type := None)"
    "toplevels st' = (toplevels st)(w := None)"
    "close_bound st' = (close_bound st)(w := None)"
    "data_dicts st' = (data_dicts st)(ab_dict := (data_dicts st ab_dict ++ m)(''ab_type'' := None))"
    "ism_ab_type st' = (if ab_type = ISM then t else ism_ab_type st)"
    "ej_ab_type st' = (if ab_type = ISM then ej_ab_type st else t)"
    unfolding eq commit_and_destroy_ok(1) [OF m] by simp_all
  have e: "snd (close_window validate w p st)
      = (case close_event p of Some (Event (Some i)) \<Rightarrow> [Validate i] | _ \<Rightarrow> [])
        @ [Destroy w, Update_output st']"
    unfolding close_window_unfold(2) [OF assms(2)] commit_and_destroy_ok(2) [OF m] eq ..
  have d: "\<exists>m'. instances (fst (abundance_window fmt d ab_type st')) (next_window st') = Some m'
        \<and> m' ''ab_type'' = Some t"
    if "snd (make_entries fmt (data_dicts st' d) ELEMENT_ORDER Map.empty) = None"
  proof -
    have "ab_window_open st' ab_type = None" by (simp add: f)
    from abundance_window_default [OF this that] show ?thesis
      by (cases "ab_type = ISM") (simp_all add: f)
  qed
  have n: "close_event p = None \<Longrightarrow> m = get_values st w"
    using vals by (simp add: validated_no_event)
  from m(2) d e n show ?thesis
    unfolding Let_def vals st'_def [symmetric] by (auto simp: f)
qed


subsection \<open>A window opened, edited and closed\<close>

lemma make_entries_ok:
  "(\<And>e. e \<in> set es \<Longrightarrow> \<exists>x. d e = Some (Num x)) \<Longrightarrow> snd (make_entries fmt d es acc) = None"
proof (induction es arbitrary: acc)
  case Nil
  then show ?case by simp
next
  case (Cons a es)
  from Cons.prems [of a] obtain x where "d a = Some (Num x)" by auto
  moreover have "snd (make_entries fmt d es (acc(a \<mapsto> Num (fmt x)))) = None"
    by (rule Cons.IH) (simp add: Cons.prems)
  ultimately show ?case by simp
qed

lemma abundance_window_built:
  assumes "ab_window_open st k = None"
    and "snd (make_entries fmt (data_dicts st d) ELEMENT_ORDER Map.empty) = None"
  shows "close_bound (fst (abundance_window fmt d k st)) (next_window st) = Some (d, k)"
    and "instances (fst (abundance_window fmt d k st)) (next_window st) =
           Some ((fst (make_entries fmt (data_dicts st d) ELEMENT_ORDER Map.empty))
                   (''ab_type'' \<mapsto> (if k = ISM then ism_ab_type st else ej_ab_type st)))"
    and "data_dicts (fst (abundance_window fmt d k st)) = data_dicts st"
    and "ism_ab_type (fst (abundance_window fmt d k st)) = ism_ab_type st"
proof -
  obtain entries where me: "make_entries fmt (data_dicts st d) ELEMENT_ORDER Map.empty = (entries, None)"
    using assms(2) by (cases "make_entries fmt (data_dicts st d) ELEMENT_ORDER Map.empty") simp
  have eq: "fst (abundance_window fmt d k st) =
      st\<lparr>next_window := Suc (next_window st),
         toplevels := (toplevels st)(next_window st \<mapsto> k),
         ab_window_open := (ab_window_open st)(k := Some (next_window st)),
         instances := (instances st)(next_window st \<mapsto>
            entries(''ab_type'' \<mapsto> (if k = ISM then ism_ab_type st else ej_ab_type st))),
         close_bound := (close_bound st)(next_window st \<mapsto> (d, k))\<rparr>"
    by (simp add: abundance_window_def Let_def assms(1) me)
  show "close_bound (fst (abundance_window fmt d k st)) (next_window st) = Some (d, k)"
    unfolding eq by simp
  show "instances (fst (abundance_window fmt d k st)) (next_window st) =
           Some ((fst (make_entries fmt (data_dicts st d) ELEMENT_ORDER Map.empty))
                   (''ab_type'' \<mapsto> (if k = ISM then ism_ab_type st else ej_ab_type st)))"
    unfolding eq me by simp
  show "data_dicts (fst (abundance_window fmt d k st)) = data_dicts st"
    unfolding eq by simp
  show "ism_ab_type (fst (abundance_window fmt d k st)) = ism_ab_type st"
    unfolding eq by simp
qed

lemma ready_tables:
  "data_dicts (ready_gui t_c t_pds) = data_dicts (start_gui t_c t_pds)"
  "ism_ab_type (ready_gui t_c t_pds) = ism_ab_type (start_gui t_c t_pds)"
  using ready_window_part [of t_c t_pds] by (simp_all add: window_part_def)


lemma dict_lookup: "dict kvs e = map_option Num (map_of kvs e)"
  unfolding dict_def by (induction kvs) auto

lemma ABUNDANCE_LMC_lookup: "ABUNDANCE ''LMC'' = Some (dict ABUNDANCE_LMC)"
  by (simp add: ABUNDANCE_def)

lemma LMC_elements:
  assumes "e \<in> set ELEMENT_ORDER"
  shows "\<exists>x. dict ABUNDANCE_LMC e = Some (Num x)"
proof -
  have "set ELEMENT_ORDER \<subseteq> fst ` set ABUNDANCE_LMC"
    by (simp add: ELEMENT_ORDER_def ABUNDANCE_LMC_def)
  with assms have "e \<in> fst ` set ABUNDANCE_LMC" by blast
  then obtain x where "map_of ABUNDANCE_LMC e = Some x"
    by (metis domD dom_map_of_conv_image_fst)
  then show ?thesis by (simp add: dict_lookup)
qed

lemma start_abundance: "data_dicts (start_gui t_c t_pds) Abundance = dict ABUNDANCE_LMC"
  by (simp add: start_gui_def ABUNDANCE_LMC_lookup)


lemma make_entries_fst:
  "snd (make_entries fmt d es acc) = None \<Longrightarrow>
     fst (make_entries fmt d es acc) =
       (\<lambda>e. if e \<in> set es then (case d e of Some (Num x) \<Rightarrow> Some (Num (fmt x)) | _ \<Rightarrow> None)
            else acc e)"
proof (induction es arbitrary: acc)
  case Nil
  then show ?case by simp
next
  case (Cons a es)
  then show ?case
    by (auto simp: fun_eq_iff split: option.splits pyval.splits)
qed

lemma LMC_entries:
  "snd (make_entries fmt (dict ABUNDANCE_LMC) ELEMENT_ORDER Map.empty) = None"
  "e \<in> set ELEMENT_ORDER \<Longrightarrow>
     \<exists>x. fst (make_entries fmt (dict ABUNDANCE_LMC) ELEMENT_ORDER Map.empty) e = Some (Num x)"
proof -
  show a: "snd (make_entries fmt (dict ABUNDANCE_LMC) ELEMENT_ORDER Map.empty) = None"
    by (rule make_entries_ok) (rule LMC_elements)
  assume e: "e \<in> set ELEMENT_ORDER"
  from LMC_elements [OF e] obtain x where "dict ABUNDANCE_LMC e = Some (Num x)" ..
  with e show "\<exists>x. fst (make_entries fmt (dict ABUNDANCE_LMC) ELEMENT_ORDER Map.empty) e = Some (Num x)"
    unfolding make_entries_fst [OF a] by simp
qed

text \<open>
  The window for the interstellar medium is opened, helium is set to 11 and the preset
  \<^verbatim>\<open>Solar\<close> is picked; the window manager then closes the window.
\<close>

theorem every_close_commits_witness:
  "close_bound (run (\<lambda>x. x) (\<lambda>i v. v) (ready_gui 1 1)
      [Press_button ISM, Edit_input 0 ''He'' (Num 11), Edit_input 0 ''ab_type'' (Str ''Solar'')]) 0
     = Some (Abundance, ISM)
   \<and> data_dicts (fst (close_window (\<lambda>i v. v) 0 Wm_delete (run (\<lambda>x. x) (\<lambda>i v. v) (ready_gui 1 1)
      [Press_button ISM, Edit_input 0 ''He'' (Num 11), Edit_input 0 ''ab_type'' (Str ''Solar'')])))
      Abundance ''He'' = Some (Num 11)
   \<and> data_dicts (fst (close_window (\<lambda>i v. v) 0 Wm_delete (run (\<lambda>x. x) (\<lambda>i v. v) (ready_gui 1 1)
      [Press_button ISM, Edit_input 0 ''He'' (Num 11), Edit_input 0 ''ab_type'' (Str ''Solar'')])))
      Abundance ''ab_type'' = None
   \<and> ism_ab_type (fst (close_window (\<lambda>i v. v) 0 Wm_delete (run (\<lambda>x. x) (\<lambda>i v. v) (ready_gui 1 1)
      [Press_button ISM, Edit_input 0 ''He'' (Num 11), Edit_input 0 ''ab_type'' (Str ''Solar'')])))
     = Str ''Solar''
   \<and> ab_window_open (fst (close_window (\<lambda>i v. v) 0 Wm_delete (run (\<lambda>x. x) (\<lambda>i v. v) (ready_gui 1 1)
      [Press_button ISM, Edit_input 0 ''He'' (Num 11), Edit_input 0 ''ab_type'' (Str ''Solar'')]))) ISM
     = None
   \<and> toplevels (fst (close_window (\<lambda>i v. v) 0 Wm_delete (run (\<lambda>x. x) (\<lambda>i v. v) (ready_gui 1 1)
      [Press_button ISM, Edit_input 0 ''He'' (Num 11), Edit_input 0 ''ab_type'' (Str ''Solar'')]))) 0
     = None"
proof -
  define E where "E = fst (make_entries (\<lambda>x. x) (dict ABUNDANCE_LMC) ELEMENT_ORDER Map.empty)"
  define S1 where "S1 = step (\<lambda>x. x) (\<lambda>i v. v) (ready_gui 1 1) (Press_button ISM)"
  define S2 where "S2 = step (\<lambda>x. x) (\<lambda>i v. v) S1 (Edit_input 0 ''He'' (Num 11))"
  define S3 where "S3 = step (\<lambda>x. x) (\<lambda>i v. v) S2 (Edit_input 0 ''ab_type'' (Str ''Solar''))"
  have run: "run (\<lambda>x. x) (\<lambda>i v. v) (ready_gui 1 1)
      [Press_button ISM, Edit_input 0 ''He'' (Num 11), Edit_input 0 ''ab_type'' (Str ''Solar'')] = S3"
    unfolding run_def S3_def S2_def S1_def by (simp only: foldl.simps)
  have rd: "data_dicts (ready_gui 1 1) Abundance = dict ABUNDANCE_LMC"
    by (simp add: ready_tables start_abundance)
  have ri: "ism_ab_type (ready_gui 1 1) = Str ''LMC''"
    by (simp add: ready_tables start_gui_def)
  have me: "snd (make_entries (\<lambda>x. x) (data_dicts (ready_gui 1 1) Abundance) ELEMENT_ORDER Map.empty) = None"
    unfolding rd by (rule LMC_entries(1))
  have he: "\<exists>x. E ''He'' = Some (Num x)"
    unfolding E_def by (rule LMC_entries(2)) (simp add: ELEMENT_ORDER_def)
  note b = abundance_window_built [OF ready_windows(1) [of 1 1 ISM] me, unfolded ready_windows(2)]
  have s1: "close_bound S1 0 = Some (Abundance, ISM)"
    "instances S1 0 = Some (E(''ab_type'' \<mapsto> Str ''LMC''))"
    "data_dicts S1 Abundance = dict ABUNDANCE_LMC"
    "toplevels S1 0 = Some ISM"
    unfolding S1_def E_def
    using b abundance_window_new(2) [OF ready_windows(1) [of 1 1 ISM], where fmt = "\<lambda>x. x" and d = Abundance]
    by (simp_all add: rd ri ready_windows(2))
  have s2: "S2 = S1\<lparr>instances := (instances S1)(0 \<mapsto> E(''ab_type'' \<mapsto> Str ''LMC'', ''He'' \<mapsto> Num 11))\<rparr>"
    unfolding S2_def using s1 he by auto
  have s3: "S3 = S2\<lparr>instances := (instances S2)
      (0 \<mapsto> E(''ab_type'' \<mapsto> Str ''LMC'', ''He'' \<mapsto> Num 11, ''ab_type'' \<mapsto> Str ''Solar''))\<rparr>"
    unfolding S3_def using s1 by (simp add: s2)
  have c3: "windows_consistent S3"
    unfolding run [symmetric] by (rule run_consistent [OF ready_consistent])
  have cb: "close_bound S3 0 = Some (Abundance, ISM)" by (simp add: s3 s2 s1)
  have gv: "get_values S3 0 =
      E(''ab_type'' \<mapsto> Str ''LMC'', ''He'' \<mapsto> Num 11, ''ab_type'' \<mapsto> Str ''Solar'')"
    by (simp add: get_values_def s3)
  have v: "validated (\<lambda>i v. v) 0 Wm_delete S3 = S3" by (simp add: validated_no_event)
  from every_close_commits [OF c3 cb, of "\<lambda>i v. v" Wm_delete "\<lambda>x. x" Abundance] cb
  show ?thesis
    unfolding run Let_def v gv by auto
qed


subsection \<open>The rule for \<open>s = 0\<close> is in force at all times\<close>

text \<open>
  Every state the user can reach from the ready program in which \<open>s\<close> reads \<^verbatim>\<open>'0'\<close> is
  one that the branch for \<^verbatim>\<open>'0'\<close> has left: the round trip of claim C6 starts from such
  a state.
\<close>

lemma zero_rule_frame:
  assumes "zero_rule st"
    and "value_vars st' ''s'' = value_vars st ''s''" and "value_vars st' ''n'' = value_vars st ''n''"
    and "gridded st' ''m_w'' = gridded st ''m_w''" and "gridded st' ''v_w'' = gridded st ''v_w''"
    and "input_values st' ''n'' = input_values st ''n''"
  shows "zero_rule st'"
  using assms by (simp add: zero_rule_def zero_settled_def get_value_def)

lemma s_change_zero_rule: "zero_rule (fst (s_change u st))"
proof (cases "value_vars st ''s'' = Str ''0''")
  case True
  from s_change_settles [OF True, of u] s_change_zero(1) [OF True, of u]
  show ?thesis by (simp add: zero_rule_def)
next
  case False
  from s_change_nonzero(3) [OF False, of u] False show ?thesis by (simp add: zero_rule_def)
qed

lemma model_change_registry:
  "value_vars (fst (model_change u st)) ''s'' = value_vars st ''s''"
  "value_vars (fst (model_change u st)) ''n'' = value_vars st ''n''"
  "gridded (fst (model_change u st)) ''m_w'' = gridded st ''m_w''"
  "gridded (fst (model_change u st)) ''v_w'' = gridded st ''v_w''"
  "input_values (fst (model_change u st)) ''n'' = input_values st ''n''"
  by (simp_all add: model_change_def Let_def get_value_def)

lemma increment_xlimits_registry:
  "value_vars (fst (increment_xlimits a d st)) = value_vars st"
  "gridded (fst (increment_xlimits a d st)) = gridded st"
  "input_values (fst (increment_xlimits a d st)) = input_values st"
  by (simp_all add: increment_xlimits_def arrow_edit_def force_custom_def config_increment_def
      set_value_var_def store_limit_def Let_def split: option.splits)

lemma abundance_window_registry:
  "value_vars (fst (abundance_window fmt d k st)) = value_vars st"
  "gridded (fst (abundance_window fmt d k st)) = gridded st"
  "input_values (fst (abundance_window fmt d k st)) = input_values st"
proof -
  obtain entries err
    where me: "make_entries fmt (data_dicts st d) ELEMENT_ORDER Map.empty = (entries, err)"
    by (cases "make_entries fmt (data_dicts st d) ELEMENT_ORDER Map.empty")
  show "value_vars (fst (abundance_window fmt d k st)) = value_vars st"
    by (cases "ab_window_open st k"; cases err) (simp_all add: abundance_window_def Let_def me)
  show "gridded (fst (abundance_window fmt d k st)) = gridded st"
    by (cases "ab_window_open st k"; cases err) (simp_all add: abundance_window_def Let_def me)
  show "input_values (fst (abundance_window fmt d k st)) = input_values st"
    by (cases "ab_window_open st k"; cases err) (simp_all add: abundance_window_def Let_def me)
qed

lemma validate_input_registry [simp]:
  "value_vars (validate_input validate w i st) = value_vars st"
  "gridded (validate_input validate w i st) = gridded st"
  "input_values (validate_input validate w i st) = input_values st"
  by (simp_all add: validate_input_def split: option.splits)

lemma commit_and_destroy_registry [simp]:
  "value_vars (fst (commit_and_destroy w d k st)) = value_vars st"
  "gridded (fst (commit_and_destroy w d k st)) = gridded st"
  "input_values (fst (commit_and_destroy w d k st)) = input_values st"
  by (simp_all add: commit_and_destroy_def destroy_def Let_def split: option.splits)

lemma close_window_registry:
  "value_vars (fst (close_window validate w p st)) = value_vars st"
  "gridded (fst (close_window validate w p st)) = gridded st"
  "input_values (fst (close_window validate w p st)) = input_values st"
  by (simp_all add: close_window_def ab_window_close_def Let_def
      split: option.splits tk_event.splits prod.splits)

lemma step_zero_rule:
  assumes "zero_rule st"
  shows "zero_rule (step fmt validate st a)"
proof (cases a)
  case (Press_button k)
  show ?thesis unfolding Press_button
    by (rule zero_rule_frame [OF assms]) (simp_all add: abundance_window_registry)
next
  case (Close_window w p)
  show ?thesis unfolding Close_window
    by (rule zero_rule_frame [OF assms]) (simp_all add: close_window_registry)
next
  case (Edit_input w ident v)
  show ?thesis unfolding Edit_input
    by (rule zero_rule_frame [OF assms]) (simp_all split: option.splits)
next
  case (Select_s v)
  show ?thesis unfolding Select_s by (simp add: select_s_def s_change_zero_rule)
next
  case (Select_n v)
  show ?thesis
  proof (cases "v \<in> set (input_values st ''n'')")
    case False
    with assms show ?thesis unfolding Select_n by simp
  next
    case True
    have "v \<noteq> Num 1" if "value_vars st ''s'' = Str ''0''"
      using assms that True by (auto simp: zero_rule_def)
    with assms True show ?thesis
      unfolding Select_n by (simp add: zero_rule_def zero_settled_def get_value_def)
  qed
next
  case (Select_model m)
  show ?thesis unfolding Select_model
    by (rule zero_rule_frame [OF assms]) (simp_all add: select_model_def model_change_registry)
next
  case (Select_range v)
  show ?thesis unfolding Select_range
    by (rule zero_rule_frame [OF assms]) (simp_all add: select_range_def limit_change_def Let_def)
next
  case (Type_limit a v)
  show ?thesis unfolding Type_limit
    by (rule zero_rule_frame [OF assms]) (simp_all add: set_value_var_def)
next
  case (Arrow a d)
  show ?thesis unfolding Arrow
    by (rule zero_rule_frame [OF assms]) (simp_all add: increment_xlimits_registry)
next
  case (Enter a)
  show ?thesis unfolding Enter
    by (rule zero_rule_frame [OF assms]) (simp_all add: increment_xlimits_registry)
qed

lemma run_zero_rule: "zero_rule st \<Longrightarrow> zero_rule (run fmt validate st acts)"
  unfolding run_def by (induction acts arbitrary: st) (simp_all add: step_zero_rule)

lemma ready_zero_rule: "zero_rule (ready_gui t_c t_pds)"
  unfolding ready_gui_def by (rule s_change_zero_rule)

lemma reachable_zero_settled:
  "value_vars (run fmt validate (ready_gui t_c t_pds) acts) ''s'' = Str ''0'' \<Longrightarrow>
     zero_settled (run fmt validate (ready_gui t_c t_pds) acts)"
  using run_zero_rule [OF ready_zero_rule, of fmt validate t_c t_pds acts]
  by (simp add: zero_rule_def)


end
